theory Spec2Isabelle
  imports
    Main
    "HOL-Library.Char_ord"
    "HOL-Library.List_Lexorder"
    "HOL-Library.Product_Lexorder"
begin

section \<open>Values of the host language\<close>

text \<open>
  A TypeScript variable of type \<open>string\<close> may hold \<open>undefined\<close>, \<open>null\<close> or a string.
  The strict comparison \<open>===\<close> tells the three apart (\<open>undefined === null\<close> is false),
  so the model keeps them apart as well, and \<open>===\<close> is HOL equality on this type.
  \<open>falsy\<close> is the test \<open>!x\<close>: it holds for \<open>undefined\<close>, \<open>null\<close> and the empty string.
\<close>

datatype jsstring = Undefined | Null | Str string

fun falsy :: "jsstring \<Rightarrow> bool" where
  "falsy Undefined = True"
| "falsy Null = True"
| "falsy (Str s) = (s = [])"

section \<open>Library helpers that the sources import\<close>

text \<open>
  Modelled from the spec: \<open>compare\<close> of \<open>vs/base/common/strings\<close> is imported by the
  sources and is not among them. The spec calls it "URI string comparison" and requires
  a strict total order; it is the three-way comparison of two strings under the
  lexicographic order of their code units, returning a negative number, zero or a
  positive number.
\<close>

definition compare :: "string \<Rightarrow> string \<Rightarrow> int" where
  "compare a b = (if a < b then - 1 else if b < a then 1 else 0)"

record 'a DeltaResult =
  removed :: "'a list"
  added :: "'a list"

text \<open>
  Modelled from the spec: \<open>delta\<close> of \<open>vs/base/common/arrays\<close> is imported by the sources
  and is not among them. The spec (section 4.2) describes it: walk both sequences with
  two cursors; when \<open>old[i] < new[j]\<close> the old item is removed and \<open>i\<close> advances; when
  \<open>new[j] < old[i]\<close> the new item is added and \<open>j\<close> advances; when they compare equal
  both advance. When one sequence is exhausted the rest of the other is removed
  (respectively added) as a whole. The two cursors are the two remaining suffixes.
\<close>

fun delta :: "'a list \<Rightarrow> 'a list \<Rightarrow> ('a \<Rightarrow> 'a \<Rightarrow> int) \<Rightarrow> 'a DeltaResult" where
  "delta [] aft cmp = \<lparr>removed = [], added = aft\<rparr>"
| "delta (b # bef) [] cmp = \<lparr>removed = b # bef, added = []\<rparr>"
| "delta (b # bef) (a # aft) cmp =
     (let n = cmp b a in
      if n = 0 then delta bef aft cmp
      else if n < 0 then
        (let r = delta bef (a # aft) cmp in r\<lparr>removed := b # removed r\<rparr>)
      else
        (let r = delta (b # bef) aft cmp in r\<lparr>added := a # added r\<rparr>))"

text \<open>
  \<open>Array.prototype.sort\<close> with a comparator, as a stable insertion sort. The properties
  below depend only on the result being a sorted permutation of the input.
\<close>

fun insertBy :: "('a \<Rightarrow> 'a \<Rightarrow> int) \<Rightarrow> 'a \<Rightarrow> 'a list \<Rightarrow> 'a list" where
  "insertBy cmp x [] = [x]"
| "insertBy cmp x (y # ys) = (if cmp x y \<le> 0 then x # y # ys else y # insertBy cmp x ys)"

definition sortBy :: "('a \<Rightarrow> 'a \<Rightarrow> int) \<Rightarrow> 'a list \<Rightarrow> 'a list" where
  "sortBy cmp xs = foldr (insertBy cmp) xs []"

section \<open>Documents, editors and bindings\<close>

text \<open>
  \<open>IModel\<close> and \<open>ICommonCodeEditor\<close> are external objects; the records hold what the
  sources read from them. \<open>uri\<close> is \<open>uri.toString()\<close>. An editor object is the same
  object exactly when the records are equal (\<open>getId\<close> is unique per editor instance), so
  \<open>===\<close> on editors is HOL equality.
\<close>

record IModel =
  uri :: string
  versionId :: int
  isTooLargeForHavingARichMode :: bool

record ICommonCodeEditor =
  getId :: string
  getModel :: "IModel option"
  isFocused :: bool

definition compareModels :: "IModel \<Rightarrow> IModel \<Rightarrow> int" where
  "compareModels a b = compare (uri a) (uri b)"

record EditorAndModel =
  editor :: ICommonCodeEditor
  document :: IModel
  id' :: string

definition new_EditorAndModel :: "ICommonCodeEditor \<Rightarrow> IModel \<Rightarrow> EditorAndModel" where
  "new_EditorAndModel e d = \<lparr>editor = e, document = d, id' = getId e @ '','' @ uri d\<rparr>"

definition compareEditors :: "EditorAndModel \<Rightarrow> EditorAndModel \<Rightarrow> int" where
  "compareEditors a b =
     (let ret = compare (getId (editor a)) (getId (editor b)) in
      if ret = 0 then compare (uri (document a)) (uri (document b)) else ret)"

section \<open>Snapshots and their difference\<close>

record DocumentAndEditorStateDelta =
  removedDocuments :: "IModel list"
  addedDocuments :: "IModel list"
  removedEditors :: "EditorAndModel list"
  addedEditors :: "EditorAndModel list"
  oldActiveEditor :: jsstring
  newActiveEditor :: jsstring
  isEmpty :: bool

definition new_DocumentAndEditorStateDelta ::
  "IModel list \<Rightarrow> IModel list \<Rightarrow> EditorAndModel list \<Rightarrow> EditorAndModel list \<Rightarrow>
   jsstring \<Rightarrow> jsstring \<Rightarrow> DocumentAndEditorStateDelta" where
  "new_DocumentAndEditorStateDelta rd ad re ae oldA newA =
     \<lparr>removedDocuments = rd, addedDocuments = ad, removedEditors = re, addedEditors = ae,
      oldActiveEditor = oldA, newActiveEditor = newA,
      isEmpty = (length rd = 0 \<and> length ad = 0 \<and> length re = 0 \<and> length ae = 0
                 \<and> oldA = newA)\<rparr>"

record DocumentAndEditorState =
  documents :: "IModel list"
  editors :: "EditorAndModel list"
  activeEditor :: jsstring

definition new_DocumentAndEditorState ::
  "IModel list \<Rightarrow> EditorAndModel list \<Rightarrow> jsstring \<Rightarrow> DocumentAndEditorState" where
  "new_DocumentAndEditorState docs eds act =
     \<lparr>documents = sortBy compareModels docs, editors = sortBy compareEditors eds,
      activeEditor = act\<rparr>"

text \<open>
  The first argument (\<open>before\<close>) is \<open>None\<close> when no snapshot has been stored yet
  (\<open>!before\<close>).
\<close>

definition compute ::
  "DocumentAndEditorState option \<Rightarrow> DocumentAndEditorState \<Rightarrow> DocumentAndEditorStateDelta" where
  "compute bef aft =
     (case bef of
        None \<Rightarrow>
          new_DocumentAndEditorStateDelta [] (documents aft) [] (editors aft)
            Undefined (activeEditor aft)
      | Some b \<Rightarrow>
          (let documentDelta = delta (documents b) (documents aft) compareModels;
               editorDelta = delta (editors b) (editors aft) compareEditors;
               oldActive = (if activeEditor b \<noteq> activeEditor aft
                            then activeEditor b else Undefined);
               newActive = (if activeEditor b \<noteq> activeEditor aft
                            then activeEditor aft else Undefined)
           in new_DocumentAndEditorStateDelta
                (removed documentDelta) (added documentDelta)
                (removed editorDelta) (added editorDelta)
                oldActive newActive))"

text \<open>
  The earlier variant of the tracker, \<open>mainThreadDocumentAndEditorState.ts\<close>, has the same
  \<open>compute\<close> without the active editor: a snapshot is its two sequences, a delta its four
  sequences and the flag. Its \<open>ApiEditor\<close> is the binding without the \<open>id\<close> field.
\<close>

record DocumentAndEditorStateDelta0 =
  removedDocuments0 :: "IModel list"
  addedDocuments0 :: "IModel list"
  removedEditors0 :: "EditorAndModel list"
  addedEditors0 :: "EditorAndModel list"
  isEmpty0 :: bool

definition new_DocumentAndEditorStateDelta0 ::
  "IModel list \<Rightarrow> IModel list \<Rightarrow> EditorAndModel list \<Rightarrow> EditorAndModel list \<Rightarrow>
   DocumentAndEditorStateDelta0" where
  "new_DocumentAndEditorStateDelta0 rd ad re ae =
     \<lparr>removedDocuments0 = rd, addedDocuments0 = ad, removedEditors0 = re, addedEditors0 = ae,
      isEmpty0 = (length rd = 0 \<and> length ad = 0 \<and> length re = 0 \<and> length ae = 0)\<rparr>"

definition compute0 ::
  "(IModel list \<times> EditorAndModel list) option \<Rightarrow> IModel list \<times> EditorAndModel list \<Rightarrow>
   DocumentAndEditorStateDelta0" where
  "compute0 bef aft =
     (case bef of
        None \<Rightarrow> new_DocumentAndEditorStateDelta0 [] (fst aft) [] (snd aft)
      | Some b \<Rightarrow>
          (let documentDelta = delta (fst b) (fst aft) compareModels;
               editorDelta = delta (snd b) (snd aft) compareEditors
           in new_DocumentAndEditorStateDelta0
                (removed documentDelta) (added documentDelta)
                (removed editorDelta) (added editorDelta)))"

section \<open>The state tracker\<close>

text \<open>
  The collaborators the tracker reads at each recomputation. The control of a workbench
  editor is a code editor, a diff editor (of which only its modified editor is read,
  \<open>getModifiedEditor()\<close>) or something else.
\<close>

datatype Control =
    CommonCodeEditor ICommonCodeEditor
  | CommonDiffEditor ICommonCodeEditor
  | OtherControl

record IEditor =
  getControl :: Control
  position :: nat

record Services =
  getModels :: "IModel list"
  listCodeEditors :: "ICommonCodeEditor list"
  getActiveEditor :: "IEditor option"
  getVisibleEditors :: "IEditor list"
  isDirty :: "string \<Rightarrow> bool"

text \<open>
  The first loop of \<open>_updateState\<close>: \<open>models.splice(i, 1); i--\<close> followed by the
  loop's \<open>i++\<close> leaves \<open>i\<close> where it was, on a list one shorter.
\<close>

function spliceTooLarge :: "nat \<Rightarrow> IModel list \<Rightarrow> IModel list" where
  "spliceTooLarge i models =
     (if i < length models then
        (if isTooLargeForHavingARichMode (models ! i)
         then spliceTooLarge i (take i models @ drop (Suc i) models)
         else spliceTooLarge (Suc i) models)
      else models)"
  by pat_completeness auto
termination
  by (relation "measure (\<lambda>(i, models). length models - i)") auto

declare spliceTooLarge.simps [simp del]

text \<open>The second loop: the bindings in listing order, and the id of the last focused one.\<close>

fun collectEditors ::
  "ICommonCodeEditor list \<Rightarrow> EditorAndModel list \<Rightarrow> jsstring \<Rightarrow> EditorAndModel list \<times> jsstring" where
  "collectEditors [] eds act = (eds, act)"
| "collectEditors (e # rest) eds act =
     (case getModel e of
        None \<Rightarrow> collectEditors rest eds act
      | Some model \<Rightarrow>
          if \<not> isTooLargeForHavingARichMode model then
            (let apiEditor = new_EditorAndModel e model in
             collectEditors rest (eds @ [apiEditor])
               (if isFocused e then Str (id' apiEditor) else act))
          else collectEditors rest eds act)"

text \<open>The candidate taken from the active workbench editor, and the search for it.\<close>

definition candidateOf :: "IEditor \<Rightarrow> ICommonCodeEditor option" where
  "candidateOf workbenchEditor =
     (case getControl workbenchEditor of
        CommonCodeEditor c \<Rightarrow> Some c
      | CommonDiffEditor modified \<Rightarrow> Some modified
      | OtherControl \<Rightarrow> None)"

fun matchCandidate :: "ICommonCodeEditor \<Rightarrow> EditorAndModel list \<Rightarrow> jsstring \<Rightarrow> jsstring" where
  "matchCandidate candidate [] act = act"
| "matchCandidate candidate (x # xs) act =
     (if candidate = editor x then Str (id' x) else matchCandidate candidate xs act)"

definition resolveActiveEditor :: "Services \<Rightarrow> EditorAndModel list \<Rightarrow> jsstring \<Rightarrow> jsstring" where
  "resolveActiveEditor svc eds act =
     (if falsy act then
        (case getActiveEditor svc of
           None \<Rightarrow> act
         | Some workbenchEditor \<Rightarrow>
             (case candidateOf workbenchEditor of
                None \<Rightarrow> act
              | Some candidate \<Rightarrow> matchCandidate candidate eds act))
      else act)"

text \<open>The snapshot that \<open>_updateState\<close> builds before it compares.\<close>

definition newState :: "Services \<Rightarrow> DocumentAndEditorState" where
  "newState svc =
     (let models = spliceTooLarge 0 (getModels svc);
          (eds, act) = collectEditors (listCodeEditors svc) [] Null;
          activeEd = resolveActiveEditor svc eds act
      in new_DocumentAndEditorState models eds activeEd)"

text \<open>
  Listeners live at the emitters of the collaborators. Subscribing returns a disposable,
  modelled as a handle; disposing it takes the listener off the emitter.
  \<open>EditorEvents e\<close> is the union \<open>any(onDidChangeModel, onDidFocusEditor, onDidBlurEditor)\<close>
  of the editor with id \<open>e\<close>.
\<close>

datatype Source =
    OnModelAdded
  | OnModelRemoved
  | OnCodeEditorAdd
  | OnCodeEditorRemove
  | EditorEvents string

type_synonym IDisposable = nat

record Emitters =
  listeners :: "(IDisposable \<times> Source) list"
  nextHandle :: nat

definition subscribe :: "Source \<Rightarrow> Emitters \<Rightarrow> Emitters \<times> IDisposable" where
  "subscribe src em =
     (em\<lparr>listeners := listeners em @ [(nextHandle em, src)], nextHandle := Suc (nextHandle em)\<rparr>,
      nextHandle em)"

definition disposeOne :: "IDisposable \<Rightarrow> Emitters \<Rightarrow> Emitters" where
  "disposeOne h em = em\<lparr>listeners := filter (\<lambda>l. fst l \<noteq> h) (listeners em)\<rparr>"

text \<open>
  Modelled from the spec: \<open>dispose\<close> of \<open>vs/base/common/lifecycle\<close> is imported by the
  sources and is not among them. Applied to an array it disposes every element
  ("unregister all top-level signal subscriptions") and returns the empty array.
\<close>

definition dispose :: "IDisposable list \<Rightarrow> Emitters \<Rightarrow> Emitters \<times> IDisposable list" where
  "dispose ds em = (fold disposeOne ds em, [])"

record MainThreadDocumentAndEditorState =
  toDispose :: "IDisposable list"
  toDisposeOnEditorRemove :: "string \<rightharpoonup> IDisposable"
  currentState :: "DocumentAndEditorState option"

definition new_MainThreadDocumentAndEditorState ::
  "Emitters \<Rightarrow> Emitters \<times> MainThreadDocumentAndEditorState" where
  "new_MainThreadDocumentAndEditorState em =
     (let (em1, d1) = subscribe OnModelAdded em;
          (em2, d2) = subscribe OnModelRemoved em1;
          (em3, d3) = subscribe OnCodeEditorAdd em2;
          (em4, d4) = subscribe OnCodeEditorRemove em3
      in (em4, \<lparr>toDispose = [d1, d2, d3, d4], toDisposeOnEditorRemove = Map.empty,
                currentState = None\<rparr>))"

text \<open>The tracker's \<open>dispose()\<close>.\<close>

definition disposeTracker ::
  "Emitters \<times> MainThreadDocumentAndEditorState \<Rightarrow> Emitters \<times> MainThreadDocumentAndEditorState" where
  "disposeTracker s =
     (let (em, t) = s; (em', ds) = dispose (toDispose t) em
      in (em', t\<lparr>toDispose := ds\<rparr>))"

text \<open>
  \<open>_updateState\<close>: the second component is the delta fired on \<open>onDidChangeState\<close>, if any.
\<close>

definition updateState ::
  "Services \<Rightarrow> MainThreadDocumentAndEditorState \<Rightarrow>
   MainThreadDocumentAndEditorState \<times> DocumentAndEditorStateDelta option" where
  "updateState svc t =
     (let ns = newState svc;
          d = compute (currentState t) ns
      in if \<not> isEmpty d then (t\<lparr>currentState := Some ns\<rparr>, Some d) else (t, None))"

definition onDidAddEditor ::
  "Services \<Rightarrow> ICommonCodeEditor \<Rightarrow> Emitters \<times> MainThreadDocumentAndEditorState \<Rightarrow>
   (Emitters \<times> MainThreadDocumentAndEditorState) \<times> DocumentAndEditorStateDelta option" where
  "onDidAddEditor svc e s =
     (let (em, t) = s;
          (em', listener) = subscribe (EditorEvents (getId e)) em;
          t1 = t\<lparr>toDisposeOnEditorRemove := (toDisposeOnEditorRemove t)(getId e \<mapsto> listener)\<rparr>;
          (t2, fired) = updateState svc t1
      in ((em', t2), fired))"

definition onDidRemoveEditor ::
  "Services \<Rightarrow> ICommonCodeEditor \<Rightarrow> Emitters \<times> MainThreadDocumentAndEditorState \<Rightarrow>
   (Emitters \<times> MainThreadDocumentAndEditorState) \<times> DocumentAndEditorStateDelta option" where
  "onDidRemoveEditor svc e s =
     (let (em, t) = s in
      case toDisposeOnEditorRemove t (getId e) of
        None \<Rightarrow> ((em, t), None)
      | Some sub \<Rightarrow>
          (let t1 = t\<lparr>toDisposeOnEditorRemove := (toDisposeOnEditorRemove t)(getId e := None)\<rparr>;
               em' = disposeOne sub em;
               (t2, fired) = updateState svc t1
           in ((em', t2), fired)))"

section \<open>The dispatcher\<close>

text \<open>
  A live editor handle. Of \<open>MainThreadTextEditor\<close> (imported, not among the sources)
  only the three constructor arguments that \<open>_onDelta\<close> passes are kept.
\<close>

record MainThreadTextEditor =
  textEditorId :: string
  textEditorModel :: IModel
  codeEditor :: ICommonCodeEditor

definition new_MainThreadTextEditor ::
  "string \<Rightarrow> IModel \<Rightarrow> ICommonCodeEditor \<Rightarrow> MainThreadTextEditor" where
  "new_MainThreadTextEditor i d e = \<lparr>textEditorId = i, textEditorModel = d, codeEditor = e\<rparr>"

text \<open>
  Modelled from the spec: \<open>matches\<close> of \<open>MainThreadTextEditor\<close> is not among the sources.
  The spec (section 4.4) has a visible entry match "when its underlying control matches
  the new editor": the control of the entry is the handle's code editor.
\<close>

definition matches :: "MainThreadTextEditor \<Rightarrow> IEditor \<Rightarrow> bool" where
  "matches e w = (getControl w = CommonCodeEditor (codeEditor e))"

text \<open>
  The wire records. The raw text and language of a document and the options and
  selections of an editor are opaque values copied from the collaborators; they are
  left out.
\<close>

record IModelAddedData =
  url :: string
  data_versionId :: int
  data_isDirty :: bool

record ITextEditorAddData =
  data_id :: string
  data_document :: string
  editorPosition :: "nat option"

record IDocumentsAndEditorsDelta =
  newActiveEditor' :: jsstring
  removedDocuments' :: "string list"
  removedEditors' :: "string list"
  addedDocuments' :: "IModelAddedData list"
  addedEditors' :: "ITextEditorAddData list"

definition toModelAddData :: "Services \<Rightarrow> IModel \<Rightarrow> IModelAddedData" where
  "toModelAddData svc model =
     \<lparr>url = uri model, data_versionId = versionId model, data_isDirty = isDirty svc (uri model)\<rparr>"

fun findEditorPosition :: "MainThreadTextEditor \<Rightarrow> IEditor list \<Rightarrow> nat option" where
  "findEditorPosition e [] = None"
| "findEditorPosition e (workbenchEditor # rest) =
     (if matches e workbenchEditor then Some (position workbenchEditor)
      else findEditorPosition e rest)"

definition toTextEditorAddData :: "Services \<Rightarrow> MainThreadTextEditor \<Rightarrow> ITextEditorAddData" where
  "toTextEditorAddData svc textEditor =
     \<lparr>data_id = textEditorId textEditor, data_document = uri (textEditorModel textEditor),
      editorPosition = findEditorPosition textEditor (getVisibleEditors svc)\<rparr>"

text \<open>What \<open>_onDelta\<close> does to the outside, in the order in which it does it.\<close>

datatype Effect =
    NewMainThreadTextEditor string
  | DisposeMainThreadTextEditor string
  | AcceptDocumentsAndEditorsDelta IDocumentsAndEditorsDelta
  | FireTextEditorRemove "string list"
  | FireTextEditorAdd "MainThreadTextEditor list"
  | FireDocumentRemove "string list"
  | FireDocumentAdd "IModel list"

record MainThreadDocumentsAndEditors =
  editors' :: "string \<rightharpoonup> MainThreadTextEditor"

text \<open>The loop over \<open>delta.addedEditors\<close>.\<close>

fun addedEditorsLoop ::
  "EditorAndModel list \<Rightarrow> (string \<rightharpoonup> MainThreadTextEditor) \<Rightarrow> MainThreadTextEditor list \<Rightarrow>
   Effect list \<Rightarrow> (string \<rightharpoonup> MainThreadTextEditor) \<times> MainThreadTextEditor list \<times> Effect list" where
  "addedEditorsLoop [] reg addedEds tr = (reg, addedEds, tr)"
| "addedEditorsLoop (apiEditor # rest) reg addedEds tr =
     (let mainThreadEditor =
            new_MainThreadTextEditor (id' apiEditor) (document apiEditor) (editor apiEditor)
      in addedEditorsLoop rest (reg(id' apiEditor \<mapsto> mainThreadEditor))
           (addedEds @ [mainThreadEditor]) (tr @ [NewMainThreadTextEditor (id' apiEditor)]))"

text \<open>The loop over \<open>delta.removedEditors\<close>.\<close>

fun removedEditorsLoop ::
  "EditorAndModel list \<Rightarrow> (string \<rightharpoonup> MainThreadTextEditor) \<Rightarrow> string list \<Rightarrow>
   Effect list \<Rightarrow> (string \<rightharpoonup> MainThreadTextEditor) \<times> string list \<times> Effect list" where
  "removedEditorsLoop [] reg removedEds tr = (reg, removedEds, tr)"
| "removedEditorsLoop (x # rest) reg removedEds tr =
     (case reg (id' x) of
        None \<Rightarrow> removedEditorsLoop rest reg removedEds tr
      | Some mainThreadEditor \<Rightarrow>
          removedEditorsLoop rest (reg(id' x := None)) (removedEds @ [id' x])
            (tr @ [DisposeMainThreadTextEditor (id' x)]))"

definition onDelta ::
  "Services \<Rightarrow> MainThreadDocumentsAndEditors \<Rightarrow> DocumentAndEditorStateDelta \<Rightarrow>
   MainThreadDocumentsAndEditors \<times> Effect list" where
  "onDelta svc st d =
     (let removedDocs = map uri (removedDocuments d);
          (reg1, addedEds, tr1) = addedEditorsLoop (addedEditors d) (editors' st) [] [];
          (reg2, removedEds, tr2) = removedEditorsLoop (removedEditors d) reg1 [] tr1;
          payload = \<lparr>newActiveEditor' = newActiveEditor d,
                     removedDocuments' = removedDocs,
                     removedEditors' = removedEds,
                     addedDocuments' = map (toModelAddData svc) (addedDocuments d),
                     addedEditors' = map (toTextEditorAddData svc) addedEds\<rparr>
      in (st\<lparr>editors' := reg2\<rparr>,
          tr2 @ [AcceptDocumentsAndEditorsDelta payload,
                 FireTextEditorRemove removedEds,
                 FireTextEditorAdd addedEds,
                 FireDocumentRemove removedDocs,
                 FireDocumentAdd (addedDocuments d)]))"

text \<open>
  Readings of a trace. \<open>announcedBeforeDisposed\<close> holds when every disposal of a handle
  comes after a payload that reports its id among the removed editors.
\<close>

fun announcedBeforeDisposed :: "string list \<Rightarrow> Effect list \<Rightarrow> bool" where
  "announcedBeforeDisposed announced [] = True"
| "announcedBeforeDisposed announced (AcceptDocumentsAndEditorsDelta p # tr) =
     announcedBeforeDisposed (announced @ removedEditors' p) tr"
| "announcedBeforeDisposed announced (DisposeMainThreadTextEditor i # tr) =
     (i \<in> set announced \<and> announcedBeforeDisposed announced tr)"
| "announcedBeforeDisposed announced (e # tr) = announcedBeforeDisposed announced tr"

fun disposedEditors :: "Effect list \<Rightarrow> string list" where
  "disposedEditors [] = []"
| "disposedEditors (DisposeMainThreadTextEditor i # tr) = i # disposedEditors tr"
| "disposedEditors (e # tr) = disposedEditors tr"

fun reportedRemovedEditors :: "Effect list \<Rightarrow> string list" where
  "reportedRemovedEditors [] = []"
| "reportedRemovedEditors (AcceptDocumentsAndEditorsDelta p # tr) =
     removedEditors' p @ reportedRemovedEditors tr"
| "reportedRemovedEditors (FireTextEditorRemove r # tr) = r @ reportedRemovedEditors tr"
| "reportedRemovedEditors (e # tr) = reportedRemovedEditors tr"

text \<open>
  Notions used to say what \<open>_onDelta\<close> computes: the handle that the first loop
  constructs for a binding, and a list of ids with every repetition after the first
  occurrence dropped.
\<close>

definition handleOf :: "EditorAndModel \<Rightarrow> MainThreadTextEditor" where
  "handleOf x = new_MainThreadTextEditor (id' x) (document x) (editor x)"

fun firstOccurrences :: "string list \<Rightarrow> string list" where
  "firstOccurrences [] = []"
| "firstOccurrences (i # rest) = i # filter (\<lambda>j. j \<noteq> i) (firstOccurrences rest)"

section \<open>The document-accepting side\<close>

text \<open>
  A call either returns or throws; in both cases it leaves a state behind, and the
  effects it had until then.
\<close>

datatype error = Error string | TypeError

datatype 'a Completion = Returns 'a | Throws error 'a

record ExtHostDocumentData =
  documentUri :: string
  documentVersionId :: int
  documentIsDirty :: bool

datatype DocumentEffect =
    FireDidAddDocument string
  | FireDidRemoveDocument string
  | DisposeDocumentData string

record ExtHostDocuments =
  documentData :: "string \<rightharpoonup> ExtHostDocumentData"

definition acceptModelAdd ::
  "IModelAddedData \<Rightarrow> ExtHostDocuments \<Rightarrow> (ExtHostDocuments \<times> DocumentEffect list) Completion" where
  "acceptModelAdd initData st =
     (let data = \<lparr>documentUri = url initData, documentVersionId = data_versionId initData,
                  documentIsDirty = data_isDirty initData\<rparr>;
          key = documentUri data
      in if documentData st key \<noteq> None
         then Throws (Error (''Document `'' @ key @ ''` already exists.'')) (st, [])
         else Returns (st\<lparr>documentData := (documentData st)(key \<mapsto> data)\<rparr>,
                       [FireDidAddDocument key]))"

definition acceptModelRemoved ::
  "string \<Rightarrow> ExtHostDocuments \<Rightarrow> (ExtHostDocuments \<times> DocumentEffect list) Completion" where
  "acceptModelRemoved strURL st =
     (case documentData st strURL of
        None \<Rightarrow> Throws (Error (''Document `'' @ strURL @ ''` does not exist.'')) (st, [])
      | Some data \<Rightarrow>
          Returns (st\<lparr>documentData := (documentData st)(strURL := None)\<rparr>,
                   [FireDidRemoveDocument (documentUri data), DisposeDocumentData (documentUri data)]))"

section \<open>The remote mirror of the editors\<close>

record ExtHostTextEditor =
  extHostEditorId :: string
  extHostEditorDocument :: string

record ExtHostEditors =
  editorsMap :: "string \<rightharpoonup> ExtHostTextEditor"
  activeEditorId :: jsstring
  visibleEditorIds :: "string list"

datatype EditorEffect =
    FireDidChangeVisibleTextEditors "ExtHostTextEditor option list"
  | FireDidChangeActiveTextEditor "ExtHostTextEditor option"
  | DisposeExtHostTextEditor string

text \<open>
  Modelled from the spec: \<open>equals\<close> of \<open>vs/base/common/arrays\<close> (imported as
  \<open>arrayEquals\<close>) is not among the sources, and the spec has no sentence on it. It is
  taken as equality of two arrays of strings: the same length and \<open>===\<close> at every index.
\<close>

definition arrayEquals :: "string list \<Rightarrow> string list \<Rightarrow> bool" where
  "arrayEquals one other = (one = other)"

text \<open>\<open>this._editors.get(k)\<close> for a key that may be \<open>undefined\<close> or \<open>null\<close>.\<close>

fun getEditor :: "ExtHostEditors \<Rightarrow> jsstring \<Rightarrow> ExtHostTextEditor option" where
  "getEditor st (Str k) = editorsMap st k"
| "getEditor st _ = None"

definition getActiveTextEditor :: "ExtHostEditors \<Rightarrow> ExtHostTextEditor option" where
  "getActiveTextEditor st = getEditor st (activeEditorId st)"

definition getVisibleTextEditors :: "ExtHostEditors \<Rightarrow> ExtHostTextEditor option list" where
  "getVisibleTextEditors st = map (editorsMap st) (visibleEditorIds st)"

definition acceptActiveEditorAndVisibleEditors ::
  "jsstring \<Rightarrow> string list \<Rightarrow> ExtHostEditors \<Rightarrow> ExtHostEditors \<times> EditorEffect list" where
  "acceptActiveEditorAndVisibleEditors k visibleIds st =
     (let visibleChanged = \<not> arrayEquals (visibleEditorIds st) visibleIds;
          st1 = (if visibleChanged then st\<lparr>visibleEditorIds := visibleIds\<rparr> else st);
          activeChanged = (activeEditorId st1 \<noteq> k);
          st2 = (if activeChanged then st1\<lparr>activeEditorId := k\<rparr> else st1)
      in (st2,
          (if visibleChanged
           then [FireDidChangeVisibleTextEditors (getVisibleTextEditors st2)] else []) @
          (if activeChanged
           then [FireDidChangeActiveTextEditor (getActiveTextEditor st2)] else [])))"

text \<open>
  \<open>$acceptTextEditorRemove\<close>. When no editor is stored under the id,
  \<open>editor.dispose()\<close> is a call on \<open>undefined\<close> and throws a \<open>TypeError\<close>, after the
  events have been fired.
\<close>

definition acceptTextEditorRemove ::
  "string \<Rightarrow> ExtHostEditors \<Rightarrow> (ExtHostEditors \<times> EditorEffect list) Completion" where
  "acceptTextEditorRemove i st =
     (let newVisibleEditors = filter (\<lambda>visibleEditorId. visibleEditorId \<noteq> i) (visibleEditorIds st);
          (st1, tr) =
            (if activeEditorId st = Str i
             then acceptActiveEditorAndVisibleEditors Undefined newVisibleEditors st
             else acceptActiveEditorAndVisibleEditors (activeEditorId st) newVisibleEditors st)
      in case editorsMap st1 i of
           None \<Rightarrow> Throws TypeError (st1, tr)
         | Some ed \<Rightarrow>
             Returns (st1\<lparr>editorsMap := (editorsMap st1)(i := None)\<rparr>,
                      tr @ [DisposeExtHostTextEditor i]))"

section \<open>Notions and inputs used in the statements\<close>

text \<open>
  The identity of a document is its URI string; the identity of a binding is the pair of
  its editor's id and its document's URI (the two components that \<open>compareEditors\<close>
  compares). A snapshot is well formed when both of its sequences are sorted by their
  comparator and hold no two items of the same identity.
\<close>

definition bindingKey :: "EditorAndModel \<Rightarrow> string \<times> string" where
  "bindingKey b = (getId (editor b), uri (document b))"

definition sortedBy :: "('a \<Rightarrow> 'a \<Rightarrow> int) \<Rightarrow> 'a list \<Rightarrow> bool" where
  "sortedBy cmp xs = sorted_wrt (\<lambda>a b. cmp a b \<le> 0) xs"

definition wellFormed :: "DocumentAndEditorState \<Rightarrow> bool" where
  "wellFormed s =
     (sortedBy compareModels (documents s) \<and> distinct (map uri (documents s)) \<and>
      sortedBy compareEditors (editors s) \<and> distinct (map bindingKey (editors s)))"

text \<open>Two snapshots used to exercise the difference: the example of the spec's section 8.\<close>

definition doc_a :: IModel where
  "doc_a = \<lparr>uri = ''a.txt'', versionId = 1, isTooLargeForHavingARichMode = False\<rparr>"

definition doc_b :: IModel where
  "doc_b = \<lparr>uri = ''b.txt'', versionId = 1, isTooLargeForHavingARichMode = False\<rparr>"

definition editor_1 :: ICommonCodeEditor where
  "editor_1 = \<lparr>getId = ''E1'', getModel = Some doc_a, isFocused = False\<rparr>"

definition editor_2 :: ICommonCodeEditor where
  "editor_2 = \<lparr>getId = ''E2'', getModel = Some doc_a, isFocused = True\<rparr>"

definition snapshot_1 :: DocumentAndEditorState where
  "snapshot_1 = new_DocumentAndEditorState [doc_b, doc_a]
     [new_EditorAndModel editor_1 doc_a] (Str ''E1,a.txt'')"

definition snapshot_2 :: DocumentAndEditorState where
  "snapshot_2 = new_DocumentAndEditorState [doc_a]
     [new_EditorAndModel editor_2 doc_a, new_EditorAndModel editor_1 doc_a] (Str ''E2,a.txt'')"

definition snapshot_3 :: DocumentAndEditorState where
  "snapshot_3 = new_DocumentAndEditorState [doc_a, doc_b]
     [new_EditorAndModel editor_1 doc_a, new_EditorAndModel editor_2 doc_a] (Str ''E1,a.txt'')"

text \<open>
  The bindings that the second loop of \<open>_updateState\<close> appends, as one list: used to
  state what the loop computes.
\<close>

definition bindingOf :: "ICommonCodeEditor \<Rightarrow> EditorAndModel option" where
  "bindingOf e =
     (case getModel e of
        None \<Rightarrow> None
      | Some model \<Rightarrow>
          if isTooLargeForHavingARichMode model then None else Some (new_EditorAndModel e model))"

definition filteredBindings :: "ICommonCodeEditor list \<Rightarrow> EditorAndModel list" where
  "filteredBindings es = List.map_filter bindingOf es"

text \<open>Collaborator states used to exercise the tracker.\<close>

definition doc_big :: IModel where
  "doc_big = \<lparr>uri = ''big.bin'', versionId = 7, isTooLargeForHavingARichMode = True\<rparr>"

definition editor_big :: ICommonCodeEditor where
  "editor_big = \<lparr>getId = ''E3'', getModel = Some doc_big, isFocused = True\<rparr>"

definition editor_none :: ICommonCodeEditor where
  "editor_none = \<lparr>getId = ''E4'', getModel = None, isFocused = True\<rparr>"

definition services_empty :: Services where
  "services_empty = \<lparr>getModels = [], listCodeEditors = [], getActiveEditor = None,
     getVisibleEditors = [], isDirty = (\<lambda>u. False)\<rparr>"

definition services_unbound :: Services where
  "services_unbound = \<lparr>getModels = [doc_big], listCodeEditors = [editor_none],
     getActiveEditor = None, getVisibleEditors = [], isDirty = (\<lambda>u. False)\<rparr>"

definition services_focus :: Services where
  "services_focus = \<lparr>getModels = [doc_b, doc_big, doc_a],
     listCodeEditors = [editor_big, editor_1, editor_2, editor_none],
     getActiveEditor = None, getVisibleEditors = [], isDirty = (\<lambda>u. False)\<rparr>"

definition services_diff :: Services where
  "services_diff = \<lparr>getModels = [doc_b, doc_a],
     listCodeEditors = [editor_1],
     getActiveEditor = Some \<lparr>getControl = CommonDiffEditor editor_1, position = 0\<rparr>,
     getVisibleEditors = [], isDirty = (\<lambda>u. False)\<rparr>"

definition services_other :: Services where
  "services_other = \<lparr>getModels = [doc_b, doc_a],
     listCodeEditors = [editor_1],
     getActiveEditor = Some \<lparr>getControl = OtherControl, position = 0\<rparr>,
     getVisibleEditors = [], isDirty = (\<lambda>u. False)\<rparr>"

text \<open>States and deltas used to exercise the dispatcher and the remote side.\<close>

definition binding_1 :: EditorAndModel where
  "binding_1 = new_EditorAndModel editor_1 doc_a"

definition binding_2 :: EditorAndModel where
  "binding_2 = new_EditorAndModel editor_2 doc_a"

definition delta_swap :: DocumentAndEditorStateDelta where
  "delta_swap = new_DocumentAndEditorStateDelta [doc_b] [] [binding_1] [binding_2]
     (Str ''E1,a.txt'') (Str ''E2,a.txt'')"

definition dispatcher_empty :: MainThreadDocumentsAndEditors where
  "dispatcher_empty = \<lparr>editors' = Map.empty\<rparr>"

definition dispatcher_1 :: MainThreadDocumentsAndEditors where
  "dispatcher_1 =
     \<lparr>editors' = [''E1,a.txt'' \<mapsto> new_MainThreadTextEditor ''E1,a.txt'' doc_a editor_1]\<rparr>"

definition documents_1 :: ExtHostDocuments where
  "documents_1 =
     \<lparr>documentData = [''a.txt'' \<mapsto>
        \<lparr>documentUri = ''a.txt'', documentVersionId = 1, documentIsDirty = False\<rparr>]\<rparr>"

definition mirror_1 :: ExtHostEditors where
  "mirror_1 =
     \<lparr>editorsMap = [''E1,a.txt'' \<mapsto> \<lparr>extHostEditorId = ''E1,a.txt'', extHostEditorDocument = ''a.txt''\<rparr>,
                    ''E2,a.txt'' \<mapsto> \<lparr>extHostEditorId = ''E2,a.txt'', extHostEditorDocument = ''a.txt''\<rparr>],
      activeEditorId = Str ''E1,a.txt'',
      visibleEditorIds = [''E1,a.txt'', ''E2,a.txt'']\<rparr>"

section \<open>Properties of the difference of two snapshots\<close>

text \<open>
  What the merge pass returns on two sequences that are strictly sorted by a key that
  the comparator follows: the removed items are the old items whose key is not a new
  key, and the added items are the new items whose key is not an old key.
\<close>

lemma delta_sets:
  fixes key :: "'a \<Rightarrow> 'k::linorder"
  assumes "\<forall>x y. (cmp x y = 0) = (key x = key y)"
      and "\<forall>x y. (cmp x y < 0) = (key x < key y)"
      and "sorted_wrt (\<lambda>x y. key x < key y) bs"
      and "sorted_wrt (\<lambda>x y. key x < key y) as"
  shows "set (removed (delta bs as cmp)) = {x \<in> set bs. key x \<notin> key ` set as} \<and>
     set (added (delta bs as cmp)) = {y \<in> set as. key y \<notin> key ` set bs}"
  using assms
proof (induction bs as cmp rule: delta.induct)
  case (1 aft cmp)
  then show ?case by simp
next
  case (2 b bef cmp)
  then show ?case by auto
next
  case (3 b bef a aft cmp)
  note cmp0 = "3.prems"(1) and cmpL = "3.prems"(2)
  have sb: "sorted_wrt (\<lambda>x y. key x < key y) bef" and sa: "sorted_wrt (\<lambda>x y. key x < key y) aft"
    and gb: "\<forall>x\<in>set bef. key b < key x" and ga: "\<forall>y\<in>set aft. key a < key y"
    using "3.prems" by auto
  consider (eq) "key b = key a" | (lt) "key b < key a" | (gt) "key a < key b"
    by (metis linorder_less_linear)
  then show ?case
  proof cases
    case eq
    then have n: "cmp b a = 0" by (simp add: cmp0)
    have ih: "set (removed (delta bef aft cmp)) = {x \<in> set bef. key x \<notin> key ` set aft} \<and>
     set (added (delta bef aft cmp)) = {y \<in> set aft. key y \<notin> key ` set bef}"
      using "3.IH"(1)[OF refl n cmp0 cmpL sb sa] .
    show ?thesis using ih n eq gb ga by (auto simp: Let_def)
  next
    case lt
    then have n: "cmp b a < 0" "cmp b a \<noteq> 0" by (simp_all add: cmpL cmp0)
    have ih: "set (removed (delta bef (a # aft) cmp)) = {x \<in> set bef. key x \<notin> key ` set (a # aft)} \<and>
     set (added (delta bef (a # aft) cmp)) = {y \<in> set (a # aft). key y \<notin> key ` set bef}"
      using "3.IH"(2)[OF refl n(2) n(1) cmp0 cmpL sb "3.prems"(4)] .
    have nb: "key b \<notin> key ` set (a # aft)" using lt ga by fastforce
    show ?thesis using ih n lt gb ga nb by (auto simp: Let_def)
  next
    case gt
    then have n: "\<not> cmp b a < 0" "cmp b a \<noteq> 0" by (simp_all add: cmpL cmp0)
    have ih: "set (removed (delta (b # bef) aft cmp)) = {x \<in> set (b # bef). key x \<notin> key ` set aft} \<and>
     set (added (delta (b # bef) aft cmp)) = {y \<in> set aft. key y \<notin> key ` set (b # bef)}"
      using "3.IH"(3)[OF refl n(2) n(1) cmp0 cmpL "3.prems"(3) sa] .
    have na: "key a \<notin> key ` set (b # bef)" using gt gb by fastforce
    show ?thesis using ih n gt gb ga na by (auto simp: Let_def)
  qed
qed

lemma delta_round_trip_keys:
  fixes key :: "'a \<Rightarrow> 'k::linorder"
  assumes "\<forall>x y. (cmp x y = 0) = (key x = key y)"
      and "\<forall>x y. (cmp x y < 0) = (key x < key y)"
      and "sorted_wrt (\<lambda>x y. key x < key y) bs"
      and "sorted_wrt (\<lambda>x y. key x < key y) as"
  shows "(key ` set bs - key ` set (removed (delta bs as cmp))) \<union> key ` set (added (delta bs as cmp))
         = key ` set as"
proof -
  have inj: "\<And>x y. x \<in> set bs \<Longrightarrow> y \<in> set bs \<Longrightarrow> key x = key y \<Longrightarrow> x = y"
    using assms(3) by (metis (mono_tags, lifting) in_set_conv_nth less_irrefl linorder_neqE_nat sorted_wrt_nth_less)
  show ?thesis
    using delta_sets[OF assms] inj by (auto simp: image_iff)
qed

lemma delta_round_trip_objects:
  fixes key :: "'a \<Rightarrow> 'k::linorder"
  assumes "\<forall>x y. (cmp x y = 0) = (key x = key y)"
      and "\<forall>x y. (cmp x y < 0) = (key x < key y)"
      and "sorted_wrt (\<lambda>x y. key x < key y) bs"
      and "sorted_wrt (\<lambda>x y. key x < key y) as"
      and same: "\<forall>x\<in>set bs. \<forall>y\<in>set as. key x = key y \<longrightarrow> x = y"
  shows "(set bs - set (removed (delta bs as cmp))) \<union> set (added (delta bs as cmp)) = set as"
  using delta_sets[OF assms(1-4)] same by (auto simp: image_iff) metis+

lemma compare_zero: "(compare a b = 0) = (a = b)"
  by (auto simp: compare_def)

lemma compare_neg: "(compare a b < 0) = (a < b)"
  by (auto simp: compare_def)

lemma compare_le: "(compare a b \<le> 0) = (a \<le> b)"
  by (auto simp: compare_def)

lemma compareModels_zero: "(compareModels a b = 0) = (uri a = uri b)"
  by (simp add: compareModels_def compare_zero)

lemma compareModels_neg: "(compareModels a b < 0) = (uri a < uri b)"
  by (simp add: compareModels_def compare_neg)

lemma compareEditors_zero: "(compareEditors a b = 0) = (bindingKey a = bindingKey b)"
  by (auto simp: compareEditors_def bindingKey_def Let_def compare_zero)

lemma compareEditors_neg: "(compareEditors a b < 0) = (bindingKey a < bindingKey b)"
  by (auto simp: compareEditors_def bindingKey_def Let_def compare_zero compare_neg less_prod_def)

lemma strict_of_sorted_distinct:
  fixes key :: "'a \<Rightarrow> 'k::linorder"
  assumes "\<forall>x y. (cmp x y = 0) = (key x = key y)"
      and "\<forall>x y. (cmp x y < 0) = (key x < key y)"
  shows "sortedBy cmp xs \<Longrightarrow> distinct (map key xs) \<Longrightarrow> sorted_wrt (\<lambda>x y. key x < key y) xs"
proof (induction xs)
  case Nil
  then show ?case by simp
next
  case (Cons x xs)
  have "\<And>y. y \<in> set xs \<Longrightarrow> key x < key y"
  proof -
    fix y assume y: "y \<in> set xs"
    then have "cmp x y \<le> 0" using Cons.prems(1) by (simp add: sortedBy_def)
    moreover have "key x \<noteq> key y" using Cons.prems(2) y by auto
    ultimately show "key x < key y" using assms by (metis order_le_less)
  qed
  then show ?case using Cons by (simp add: sortedBy_def)
qed

text \<open>
  C1. For snapshots \<open>A\<close> and \<open>B\<close> whose document and binding sequences are sorted by
  their comparators and duplicate-free, the delta \<open>compute (Some A) B\<close> leads from \<open>A\<close>
  to \<open>B\<close>: taking the removed documents out of the documents of \<open>A\<close> and putting the
  added ones in gives exactly the documents of \<open>B\<close>, and likewise for the bindings.
  Documents are identified by their URI and bindings by editor id and document URI, as
  the data model has it.
\<close>

theorem compute_round_trip:
  assumes "wellFormed A" and "wellFormed B"
  shows "(uri ` set (documents A) - uri ` set (removedDocuments (compute (Some A) B)))
           \<union> uri ` set (addedDocuments (compute (Some A) B)) = uri ` set (documents B)
       \<and> (bindingKey ` set (editors A) - bindingKey ` set (removedEditors (compute (Some A) B)))
           \<union> bindingKey ` set (addedEditors (compute (Some A) B)) = bindingKey ` set (editors B)"
proof -
  have m0: "\<forall>x y. (compareModels x y = 0) = (uri x = uri y)"
    and mL: "\<forall>x y. (compareModels x y < 0) = (uri x < uri y)"
    by (simp_all add: compareModels_zero compareModels_neg)
  have e0: "\<forall>x y. (compareEditors x y = 0) = (bindingKey x = bindingKey y)"
    and eL: "\<forall>x y. (compareEditors x y < 0) = (bindingKey x < bindingKey y)"
    by (simp_all add: compareEditors_zero compareEditors_neg)
  have dA: "sorted_wrt (\<lambda>x y. uri x < uri y) (documents A)"
    and dB: "sorted_wrt (\<lambda>x y. uri x < uri y) (documents B)"
    using assms strict_of_sorted_distinct[OF m0 mL] by (simp_all add: wellFormed_def)
  have eA: "sorted_wrt (\<lambda>x y. bindingKey x < bindingKey y) (editors A)"
    and eB: "sorted_wrt (\<lambda>x y. bindingKey x < bindingKey y) (editors B)"
    using assms strict_of_sorted_distinct[OF e0 eL] by (simp_all add: wellFormed_def)
  have docs: "(uri ` set (documents A) - uri ` set (removed (delta (documents A) (documents B) compareModels)))
      \<union> uri ` set (added (delta (documents A) (documents B) compareModels)) = uri ` set (documents B)"
    by (rule delta_round_trip_keys[OF m0 mL dA dB])
  have eds: "(bindingKey ` set (editors A) - bindingKey ` set (removed (delta (editors A) (editors B) compareEditors)))
      \<union> bindingKey ` set (added (delta (editors A) (editors B) compareEditors)) = bindingKey ` set (editors B)"
    by (rule delta_round_trip_keys[OF e0 eL eA eB])
  show ?thesis
    using docs eds by (simp add: compute_def new_DocumentAndEditorStateDelta_def Let_def)
qed



theorem compute_round_trip_witness:
  "wellFormed snapshot_1 \<and> wellFormed snapshot_2 \<and>
   (uri ` set (documents snapshot_1) - uri ` set (removedDocuments (compute (Some snapshot_1) snapshot_2)))
           \<union> uri ` set (addedDocuments (compute (Some snapshot_1) snapshot_2)) = uri ` set (documents snapshot_2)
       \<and> (bindingKey ` set (editors snapshot_1) - bindingKey ` set (removedEditors (compute (Some snapshot_1) snapshot_2)))
           \<union> bindingKey ` set (addedEditors (compute (Some snapshot_1) snapshot_2)) = bindingKey ` set (editors snapshot_2)"
proof -
  have w1: "wellFormed snapshot_1" by code_simp
  have w2: "wellFormed snapshot_2" by code_simp
  show ?thesis using compute_round_trip[OF w1 w2] w1 w2 by simp
qed

text \<open>
  The same on the records themselves, when an item of the old snapshot and an item of
  the new one that have the same identity also carry the same state (the records hold
  the state read from an object, so an editor that gained focus between the two
  snapshots is the same editor with another record).
\<close>

lemma compute_round_trip_objects:
  assumes "wellFormed A" and "wellFormed B"
    and "\<forall>x\<in>set (documents A). \<forall>y\<in>set (documents B). uri x = uri y \<longrightarrow> x = y"
    and "\<forall>x\<in>set (editors A). \<forall>y\<in>set (editors B). bindingKey x = bindingKey y \<longrightarrow> x = y"
  shows "(set (documents A) - set (removedDocuments (compute (Some A) B)))
           \<union> set (addedDocuments (compute (Some A) B)) = set (documents B)
       \<and> (set (editors A) - set (removedEditors (compute (Some A) B)))
           \<union> set (addedEditors (compute (Some A) B)) = set (editors B)"
proof -
  have m0: "\<forall>x y. (compareModels x y = 0) = (uri x = uri y)"
    and mL: "\<forall>x y. (compareModels x y < 0) = (uri x < uri y)"
    by (simp_all add: compareModels_zero compareModels_neg)
  have e0: "\<forall>x y. (compareEditors x y = 0) = (bindingKey x = bindingKey y)"
    and eL: "\<forall>x y. (compareEditors x y < 0) = (bindingKey x < bindingKey y)"
    by (simp_all add: compareEditors_zero compareEditors_neg)
  have dA: "sorted_wrt (\<lambda>x y. uri x < uri y) (documents A)"
    and dB: "sorted_wrt (\<lambda>x y. uri x < uri y) (documents B)"
    using assms(1,2) strict_of_sorted_distinct[OF m0 mL] by (simp_all add: wellFormed_def)
  have eA: "sorted_wrt (\<lambda>x y. bindingKey x < bindingKey y) (editors A)"
    and eB: "sorted_wrt (\<lambda>x y. bindingKey x < bindingKey y) (editors B)"
    using assms(1,2) strict_of_sorted_distinct[OF e0 eL] by (simp_all add: wellFormed_def)
  show ?thesis
    using delta_round_trip_objects[OF m0 mL dA dB assms(3)]
      delta_round_trip_objects[OF e0 eL eA eB assms(4)]
    by (simp add: compute_def new_DocumentAndEditorStateDelta_def Let_def)
qed

text \<open>The earlier variant of \<open>compute\<close> yields the same four sequences.\<close>

lemma compute0_agrees:
  "removedDocuments0 (compute0 (map_option (\<lambda>s. (documents s, editors s)) A) (documents B, editors B))
     = removedDocuments (compute A B)
   \<and> addedDocuments0 (compute0 (map_option (\<lambda>s. (documents s, editors s)) A) (documents B, editors B))
     = addedDocuments (compute A B)
   \<and> removedEditors0 (compute0 (map_option (\<lambda>s. (documents s, editors s)) A) (documents B, editors B))
     = removedEditors (compute A B)
   \<and> addedEditors0 (compute0 (map_option (\<lambda>s. (documents s, editors s)) A) (documents B, editors B))
     = addedEditors (compute A B)"
  by (cases A)
     (simp_all add: compute0_def compute_def new_DocumentAndEditorStateDelta0_def
        new_DocumentAndEditorStateDelta_def Let_def)

lemma delta_same: "\<forall>x. cmp x x = 0 \<Longrightarrow> delta xs xs cmp = \<lparr>removed = [], added = []\<rparr>"
  by (induction xs) auto

text \<open>
  C7. The difference of a snapshot with itself is empty: nothing removed, nothing
  added, and both active-editor fields \<open>undefined\<close> rather than the snapshot's active
  id on both sides. More generally, whenever the two snapshots have the same active id,
  both fields of the delta are \<open>undefined\<close>.
\<close>

theorem compute_same_empty:
  "compute (Some A) A =
     \<lparr>removedDocuments = [], addedDocuments = [], removedEditors = [], addedEditors = [],
      oldActiveEditor = Undefined, newActiveEditor = Undefined, isEmpty = True\<rparr>
   \<and> (activeEditor A = activeEditor B \<longrightarrow>
        oldActiveEditor (compute (Some A) B) = Undefined \<and>
        newActiveEditor (compute (Some A) B) = Undefined)"
proof -
  have m: "delta (documents A) (documents A) compareModels = \<lparr>removed = [], added = []\<rparr>"
    by (rule delta_same) (simp add: compareModels_zero)
  have e: "delta (editors A) (editors A) compareEditors = \<lparr>removed = [], added = []\<rparr>"
    by (rule delta_same) (simp add: compareEditors_zero)
  show ?thesis
    by (simp add: compute_def m e new_DocumentAndEditorStateDelta_def Let_def)
qed

theorem compute_same_empty_witness:
  "compute (Some snapshot_1) snapshot_1 =
     \<lparr>removedDocuments = [], addedDocuments = [], removedEditors = [], addedEditors = [],
      oldActiveEditor = Undefined, newActiveEditor = Undefined, isEmpty = True\<rparr>
   \<and> activeEditor snapshot_1 = activeEditor snapshot_3
   \<and> addedEditors (compute (Some snapshot_1) snapshot_3) \<noteq> []
   \<and> oldActiveEditor (compute (Some snapshot_1) snapshot_3) = Undefined
   \<and> newActiveEditor (compute (Some snapshot_1) snapshot_3) = Undefined"
proof -
  have a: "activeEditor snapshot_1 = activeEditor snapshot_3"
    by (simp add: snapshot_1_def snapshot_3_def new_DocumentAndEditorState_def)
  have b: "addedEditors (compute (Some snapshot_1) snapshot_3) \<noteq> []"
    by code_simp
  show ?thesis
    using compute_same_empty[of snapshot_1 snapshot_3] a b by simp
qed

section \<open>Properties of the state tracker\<close>


lemma spliceTooLarge_filter:
  "spliceTooLarge i models =
     take i models @ filter (\<lambda>m. \<not> isTooLargeForHavingARichMode m) (drop i models)"
proof (induction i models rule: spliceTooLarge.induct)
  case (1 i models)
  show ?case
  proof (cases "i < length models")
    case False
    then show ?thesis by (simp add: spliceTooLarge.simps[of i models])
  next
    case True
    note lt = True
    have d: "drop i models = models ! i # drop (Suc i) models"
      using lt by (simp add: Cons_nth_drop_Suc)
    show ?thesis
    proof (cases "isTooLargeForHavingARichMode (models ! i)")
      case True
      have "spliceTooLarge i models = spliceTooLarge i (take i models @ drop (Suc i) models)"
        using lt True by (simp add: spliceTooLarge.simps[of i models])
      also have "\<dots> = take i (take i models @ drop (Suc i) models) @
          filter (\<lambda>m. \<not> isTooLargeForHavingARichMode m) (drop i (take i models @ drop (Suc i) models))"
        using "1.IH"(1)[OF lt True] .
      also have "\<dots> = take i models @ filter (\<lambda>m. \<not> isTooLargeForHavingARichMode m) (drop (Suc i) models)"
        using lt by simp
      finally show ?thesis using d True by simp
    next
      case False
      have "spliceTooLarge i models = spliceTooLarge (Suc i) models"
        using lt False by (simp add: spliceTooLarge.simps[of i models])
      also have "\<dots> = take (Suc i) models @
          filter (\<lambda>m. \<not> isTooLargeForHavingARichMode m) (drop (Suc i) models)"
        using "1.IH"(2)[OF lt False] .
      finally show ?thesis using d False lt by (simp add: take_Suc_conv_app_nth)
    qed
  qed
qed

lemma set_insertBy: "set (insertBy cmp x xs) = insert x (set xs)"
  by (induction xs) auto

lemma set_sortBy: "set (sortBy cmp xs) = set xs"
  by (induction xs) (simp_all add: sortBy_def set_insertBy)

text \<open>The constructor of a snapshot leaves both sequences sorted by their comparator.\<close>

lemma sortedBy_insertBy:
  fixes key :: "'a \<Rightarrow> 'k::linorder"
  assumes "\<forall>x y. (cmp x y \<le> 0) = (key x \<le> key y)"
  shows "sortedBy cmp xs \<Longrightarrow> sortedBy cmp (insertBy cmp x xs)"
  using assms
  by (induction xs) (auto simp: sortedBy_def set_insertBy)

lemma sortedBy_sortBy:
  fixes key :: "'a \<Rightarrow> 'k::linorder"
  assumes "\<forall>x y. (cmp x y \<le> 0) = (key x \<le> key y)"
  shows "sortedBy cmp (sortBy cmp xs)"
proof (induction xs)
  case Nil
  then show ?case by (simp add: sortBy_def sortedBy_def)
next
  case (Cons x xs)
  then show ?case
    using sortedBy_insertBy[OF assms, of "sortBy cmp xs" x] by (simp add: sortBy_def)
qed

lemma compareModels_le: "(compareModels a b \<le> 0) = (uri a \<le> uri b)"
  by (simp add: compareModels_def compare_le)

lemma compareEditors_le: "(compareEditors a b \<le> 0) = (bindingKey a \<le> bindingKey b)"
  by (auto simp: compareEditors_def bindingKey_def Let_def compare_zero compare_le compare_neg
        less_eq_prod_def compare_def)

lemma new_DocumentAndEditorState_sorted:
  "sortedBy compareModels (documents (new_DocumentAndEditorState docs eds act))
   \<and> sortedBy compareEditors (editors (new_DocumentAndEditorState docs eds act))"
  using sortedBy_sortBy[of compareModels uri docs] sortedBy_sortBy[of compareEditors bindingKey eds]
  by (simp add: new_DocumentAndEditorState_def compareModels_le compareEditors_le)

lemma collectEditors_fst:
  "fst (collectEditors es eds act) = eds @ filteredBindings es"
  by (induction es arbitrary: eds act)
     (auto simp: filteredBindings_def bindingOf_def List.map_filter_simps Let_def split: option.splits)

lemma documents_newState:
  "documents (newState svc) =
     sortBy compareModels (filter (\<lambda>m. \<not> isTooLargeForHavingARichMode m) (getModels svc))"
proof -
  have s: "spliceTooLarge 0 (getModels svc) =
      filter (\<lambda>m. \<not> isTooLargeForHavingARichMode m) (getModels svc)"
    by (simp add: spliceTooLarge_filter)
  obtain eds act where c: "collectEditors (listCodeEditors svc) [] Null = (eds, act)"
    by (cases "collectEditors (listCodeEditors svc) [] Null")
  show ?thesis
    by (simp add: newState_def Let_def c s new_DocumentAndEditorState_def)
qed

lemma editors_newState:
  "editors (newState svc) = sortBy compareEditors (filteredBindings (listCodeEditors svc))"
proof -
  obtain eds act where c: "collectEditors (listCodeEditors svc) [] Null = (eds, act)"
    by (cases "collectEditors (listCodeEditors svc) [] Null")
  then have "eds = filteredBindings (listCodeEditors svc)"
    using collectEditors_fst[of "listCodeEditors svc" "[]" Null] by simp
  then show ?thesis
    using c by (simp add: newState_def Let_def new_DocumentAndEditorState_def)
qed

lemma set_filteredBindings:
  "set (filteredBindings es) =
     {b. \<exists>e\<in>set es. \<exists>m. getModel e = Some m \<and> \<not> isTooLargeForHavingARichMode m \<and>
            b = new_EditorAndModel e m}"
  by (induction es)
     (auto simp: filteredBindings_def bindingOf_def List.map_filter_simps split: option.splits)

text \<open>
  C5. In the snapshot that a recomputation builds, the documents are exactly the
  enumerated documents that are not too large, so a too-large document is excluded;
  an editor whose current document is absent or too large has no binding, even when
  it displays the too-large document; every binding pairs a listed editor with its
  current document, which is not too large; and every listed editor with a current
  document that is not too large has its binding.
\<close>

theorem too_large_excluded:
  "set (documents (newState svc)) =
      {m \<in> set (getModels svc). \<not> isTooLargeForHavingARichMode m}
   \<and> (isTooLargeForHavingARichMode m \<longrightarrow> m \<notin> set (documents (newState svc)))
   \<and> (getModel e = None \<or> (\<exists>d. getModel e = Some d \<and> isTooLargeForHavingARichMode d)
        \<longrightarrow> e \<notin> editor ` set (editors (newState svc)))
   \<and> (\<forall>b \<in> set (editors (newState svc)).
         editor b \<in> set (listCodeEditors svc) \<and> getModel (editor b) = Some (document b) \<and>
         \<not> isTooLargeForHavingARichMode (document b))
   \<and> (\<forall>x \<in> set (listCodeEditors svc). \<forall>d. getModel x = Some d \<and>
         \<not> isTooLargeForHavingARichMode d \<longrightarrow> new_EditorAndModel x d \<in> set (editors (newState svc)))"
  by (auto simp: documents_newState editors_newState set_sortBy set_filteredBindings
        new_EditorAndModel_def)

theorem too_large_excluded_witness:
  "isTooLargeForHavingARichMode doc_big
   \<and> doc_big \<in> set (getModels services_focus)
   \<and> doc_big \<notin> set (documents (newState services_focus))
   \<and> getModel editor_big = Some doc_big
   \<and> editor_big \<in> set (listCodeEditors services_focus)
   \<and> editor_big \<notin> editor ` set (editors (newState services_focus))
   \<and> getModel editor_none = None
   \<and> editor_none \<notin> editor ` set (editors (newState services_focus))
   \<and> editor_1 \<in> set (listCodeEditors services_focus)
   \<and> getModel editor_1 = Some doc_a
   \<and> \<not> isTooLargeForHavingARichMode doc_a
   \<and> new_EditorAndModel editor_1 doc_a \<in> set (editors (newState services_focus))
   \<and> doc_a \<in> set (documents (newState services_focus))"
proof -
  have big: "isTooLargeForHavingARichMode doc_big" by (simp add: doc_big_def)
  have small: "\<not> isTooLargeForHavingARichMode doc_a" by (simp add: doc_a_def)
  have mb: "getModel editor_big = Some doc_big" by (simp add: editor_big_def)
  have mn: "getModel editor_none = None" by (simp add: editor_none_def)
  have m1: "getModel editor_1 = Some doc_a" by (simp add: editor_1_def)
  have l: "getModels services_focus = [doc_b, doc_big, doc_a]"
    "listCodeEditors services_focus = [editor_big, editor_1, editor_2, editor_none]"
    by (simp_all add: services_focus_def)
  show ?thesis
    using too_large_excluded[of services_focus doc_big editor_big]
      too_large_excluded[of services_focus doc_a editor_none]
      big small mb mn m1 l
    by auto
qed

lemma id_nonempty: "b \<in> set (filteredBindings es) \<Longrightarrow> id' b \<noteq> []"
  by (induction es)
     (auto simp: filteredBindings_def bindingOf_def List.map_filter_simps new_EditorAndModel_def
           split: option.splits if_splits)

lemma filteredBindings_Cons:
  "filteredBindings (e # es) =
     (case bindingOf e of None \<Rightarrow> filteredBindings es | Some b \<Rightarrow> b # filteredBindings es)"
  by (simp add: filteredBindings_def split: option.splits)

lemma collectEditors_Cons:
  "collectEditors (e # es) eds act =
     (case bindingOf e of
        None \<Rightarrow> collectEditors es eds act
      | Some b \<Rightarrow> collectEditors es (eds @ [b]) (if isFocused e then Str (id' b) else act))"
  by (simp add: bindingOf_def Let_def split: option.splits)

lemma bindingOf_editor: "bindingOf e = Some b \<Longrightarrow> editor b = e"
  by (auto simp: bindingOf_def new_EditorAndModel_def split: option.splits if_splits)

lemma collectEditors_no_focus:
  "\<not> (\<exists>b\<in>set (filteredBindings es). isFocused (editor b)) \<Longrightarrow>
   snd (collectEditors es eds act) = act"
proof (induction es arbitrary: eds act)
  case Nil
  then show ?case by simp
next
  case (Cons e es)
  show ?case
  proof (cases "bindingOf e")
    case None
    then show ?thesis using Cons by (simp add: collectEditors_Cons filteredBindings_Cons del: collectEditors.simps)
  next
    case (Some b)
    then have "\<not> isFocused e" using Cons.prems bindingOf_editor[OF Some]
      by (auto simp: filteredBindings_Cons)
    then show ?thesis using Cons Some
      by (simp add: collectEditors_Cons filteredBindings_Cons del: collectEditors.simps)
  qed
qed

lemma collectEditors_focus:
  "\<exists>b\<in>set (filteredBindings es). isFocused (editor b) \<Longrightarrow>
   \<exists>b\<in>set (filteredBindings es). isFocused (editor b) \<and> snd (collectEditors es eds act) = Str (id' b)"
proof (induction es arbitrary: eds act)
  case Nil
  then show ?case by (simp add: filteredBindings_def)
next
  case (Cons e es)
  show ?case
  proof (cases "\<exists>b\<in>set (filteredBindings es). isFocused (editor b)")
    case True
    have "\<exists>b\<in>set (filteredBindings es). isFocused (editor b) \<and>
            snd (collectEditors (e # es) eds act) = Str (id' b)"
    proof (cases "bindingOf e")
      case None
      then show ?thesis using Cons.IH[OF True, of eds act]
        by (simp add: collectEditors_Cons del: collectEditors.simps)
    next
      case (Some b)
      then show ?thesis
        using Cons.IH[OF True, of "eds @ [b]" "if isFocused e then Str (id' b) else act"]
        by (simp add: collectEditors_Cons del: collectEditors.simps)
    qed
    then show ?thesis by (auto simp: filteredBindings_Cons split: option.splits)
  next
    case False
    then obtain b where b: "bindingOf e = Some b" "isFocused (editor b)"
      using Cons.prems by (auto simp: filteredBindings_Cons split: option.splits)
    then have f: "isFocused e" using bindingOf_editor[OF b(1)] by simp
    have "snd (collectEditors (e # es) eds act) = Str (id' b)"
      using collectEditors_no_focus[OF False] b f
      by (simp add: collectEditors_Cons del: collectEditors.simps)
    then show ?thesis using b by (auto simp: filteredBindings_Cons)
  qed
qed

lemma matchCandidate_found:
  "\<exists>b\<in>set eds. editor b = c \<Longrightarrow>
   \<exists>b\<in>set eds. editor b = c \<and> matchCandidate c eds act = Str (id' b)"
  by (induction eds) auto

lemma matchCandidate_none:
  "\<forall>b\<in>set eds. editor b \<noteq> c \<Longrightarrow> matchCandidate c eds act = act"
  by (induction eds) auto

lemma activeEditor_newState:
  "activeEditor (newState svc) =
     resolveActiveEditor svc (filteredBindings (listCodeEditors svc))
       (snd (collectEditors (listCodeEditors svc) [] Null))"
proof -
  obtain eds act where c: "collectEditors (listCodeEditors svc) [] Null = (eds, act)"
    by (cases "collectEditors (listCodeEditors svc) [] Null")
  then have "eds = filteredBindings (listCodeEditors svc)"
    using collectEditors_fst[of "listCodeEditors svc" "[]" Null] by simp
  then show ?thesis
    using c by (simp add: newState_def Let_def new_DocumentAndEditorState_def)
qed


lemma resolve_focus:
  assumes "\<exists>b\<in>set (filteredBindings es). isFocused (editor b)"
  shows "\<exists>b\<in>set (filteredBindings es). isFocused (editor b) \<and>
           resolveActiveEditor svc (filteredBindings es) (snd (collectEditors es [] Null)) = Str (id' b)"
proof -
  obtain b where b: "b \<in> set (filteredBindings es)" "isFocused (editor b)"
      "snd (collectEditors es [] Null) = Str (id' b)"
    using collectEditors_focus[OF assms, of "[]" Null] by blast
  have "\<not> falsy (Str (id' b))" using id_nonempty[OF b(1)] by simp
  then have "resolveActiveEditor svc (filteredBindings es) (snd (collectEditors es [] Null)) = Str (id' b)"
    using b(3) by (simp add: resolveActiveEditor_def)
  then show ?thesis using b by blast
qed

lemma resolve_no_focus:
  assumes "\<not> (\<exists>b\<in>set (filteredBindings es). isFocused (editor b))"
  shows "resolveActiveEditor svc (filteredBindings es) (snd (collectEditors es [] Null)) =
     (case getActiveEditor svc of
        None \<Rightarrow> Null
      | Some w \<Rightarrow> (case candidateOf w of
           None \<Rightarrow> Null
         | Some c \<Rightarrow> matchCandidate c (filteredBindings es) Null))"
  using collectEditors_no_focus[OF assms, of "[]" Null]
  by (simp add: resolveActiveEditor_def split: option.splits)

text \<open>
  C6. The active id of the snapshot that a recomputation builds. If some binding that
  passed the filter has a focused editor, the active id is the id of such a binding.
  Otherwise, if the control of the active workbench editor is a code editor, or a diff
  editor whose modified editor is taken, and that editor is the editor of some binding,
  the active id is the id of that binding. Otherwise (no active workbench editor, a
  control of another kind, or an editor that belongs to no binding) the active id is
  \<open>null\<close>: no editor is active.
\<close>

theorem active_editor_resolution:
  "((\<exists>b\<in>set (editors (newState svc)). isFocused (editor b)) \<longrightarrow>
      (\<exists>b\<in>set (editors (newState svc)).
          isFocused (editor b) \<and> activeEditor (newState svc) = Str (id' b)))
   \<and> (\<not> (\<exists>b\<in>set (editors (newState svc)). isFocused (editor b)) \<and>
       getActiveEditor svc = Some w \<and>
       (getControl w = CommonCodeEditor c \<or> getControl w = CommonDiffEditor c) \<and>
       (\<exists>b\<in>set (editors (newState svc)). editor b = c) \<longrightarrow>
      (\<exists>b\<in>set (editors (newState svc)).
          editor b = c \<and> activeEditor (newState svc) = Str (id' b)))
   \<and> (\<not> (\<exists>b\<in>set (editors (newState svc)). isFocused (editor b)) \<and>
       (getActiveEditor svc = None \<or>
        (\<exists>v. getActiveEditor svc = Some v \<and>
           (getControl v = OtherControl \<or>
            (\<exists>k. (getControl v = CommonCodeEditor k \<or> getControl v = CommonDiffEditor k) \<and>
                 (\<forall>b\<in>set (editors (newState svc)). editor b \<noteq> k))))) \<longrightarrow>
      activeEditor (newState svc) = Null)"
proof -
  let ?es = "listCodeEditors svc"
  let ?F = "filteredBindings ?es"
  have E: "set (editors (newState svc)) = set ?F"
    by (simp add: editors_newState set_sortBy)
  have A: "activeEditor (newState svc) =
      resolveActiveEditor svc ?F (snd (collectEditors ?es [] Null))"
    by (rule activeEditor_newState)
  have p1: "(\<exists>b\<in>set ?F. isFocused (editor b)) \<longrightarrow>
      (\<exists>b\<in>set ?F. isFocused (editor b) \<and> activeEditor (newState svc) = Str (id' b))"
    using resolve_focus[of ?es svc] A by simp
  have p2: "\<not> (\<exists>b\<in>set ?F. isFocused (editor b)) \<and> getActiveEditor svc = Some w \<and>
       (getControl w = CommonCodeEditor c \<or> getControl w = CommonDiffEditor c) \<and>
       (\<exists>b\<in>set ?F. editor b = c) \<longrightarrow>
      (\<exists>b\<in>set ?F. editor b = c \<and> activeEditor (newState svc) = Str (id' b))"
  proof (intro impI, elim conjE)
    assume nf: "\<not> (\<exists>b\<in>set ?F. isFocused (editor b))"
      and w: "getActiveEditor svc = Some w"
      and k: "getControl w = CommonCodeEditor c \<or> getControl w = CommonDiffEditor c"
      and ex: "\<exists>b\<in>set ?F. editor b = c"
    have cand: "candidateOf w = Some c" using k by (auto simp: candidateOf_def)
    have "activeEditor (newState svc) = matchCandidate c ?F Null"
      using resolve_no_focus[OF nf, of svc] A w cand by simp
    then show "\<exists>b\<in>set ?F. editor b = c \<and> activeEditor (newState svc) = Str (id' b)"
      using matchCandidate_found[OF ex, of Null] by simp
  qed
  have p3: "\<not> (\<exists>b\<in>set ?F. isFocused (editor b)) \<and>
       (getActiveEditor svc = None \<or>
        (\<exists>v. getActiveEditor svc = Some v \<and>
           (getControl v = OtherControl \<or>
            (\<exists>k. (getControl v = CommonCodeEditor k \<or> getControl v = CommonDiffEditor k) \<and>
                 (\<forall>b\<in>set ?F. editor b \<noteq> k))))) \<longrightarrow>
      activeEditor (newState svc) = Null"
  proof (intro impI, elim conjE)
    assume nf: "\<not> (\<exists>b\<in>set ?F. isFocused (editor b))"
      and d: "getActiveEditor svc = None \<or>
        (\<exists>v. getActiveEditor svc = Some v \<and>
           (getControl v = OtherControl \<or>
            (\<exists>k. (getControl v = CommonCodeEditor k \<or> getControl v = CommonDiffEditor k) \<and>
                 (\<forall>b\<in>set ?F. editor b \<noteq> k))))"
    note r = resolve_no_focus[OF nf, of svc]
    from d show "activeEditor (newState svc) = Null"
    proof (elim disjE exE conjE)
      assume "getActiveEditor svc = None"
      then show ?thesis using r A by simp
    next
      fix v assume "getActiveEditor svc = Some v" "getControl v = OtherControl"
      then show ?thesis using r A by (simp add: candidateOf_def)
    next
      fix v k assume v: "getActiveEditor svc = Some v"
        and n: "\<forall>b\<in>set ?F. editor b \<noteq> k"
        and "getControl v = CommonCodeEditor k"
      then show ?thesis using r A matchCandidate_none[OF n, of Null] by (simp add: candidateOf_def)
    next
      fix v k assume v: "getActiveEditor svc = Some v"
        and n: "\<forall>b\<in>set ?F. editor b \<noteq> k"
        and "getControl v = CommonDiffEditor k"
      then show ?thesis using r A matchCandidate_none[OF n, of Null] by (simp add: candidateOf_def)
    qed
  qed
  show ?thesis using p1 p2 p3 unfolding E by blast
qed

theorem active_editor_resolution_witness:
  "(\<exists>b\<in>set (editors (newState services_focus)). isFocused (editor b))
   \<and> (\<exists>b\<in>set (editors (newState services_focus)).
          isFocused (editor b) \<and> activeEditor (newState services_focus) = Str (id' b))
   \<and> \<not> (\<exists>b\<in>set (editors (newState services_diff)). isFocused (editor b))
   \<and> getActiveEditor services_diff = Some \<lparr>getControl = CommonDiffEditor editor_1, position = 0\<rparr>
   \<and> (\<exists>b\<in>set (editors (newState services_diff)). editor b = editor_1)
   \<and> (\<exists>b\<in>set (editors (newState services_diff)).
          editor b = editor_1 \<and> activeEditor (newState services_diff) = Str (id' b))
   \<and> \<not> (\<exists>b\<in>set (editors (newState services_other)). isFocused (editor b))
   \<and> getActiveEditor services_other = Some \<lparr>getControl = OtherControl, position = 0\<rparr>
   \<and> activeEditor (newState services_other) = Null"
proof -
  have f: "\<exists>b\<in>set (editors (newState services_focus)). isFocused (editor b)"
    by code_simp
  have nd: "\<not> (\<exists>b\<in>set (editors (newState services_diff)). isFocused (editor b))"
    by code_simp
  have wd: "getActiveEditor services_diff = Some \<lparr>getControl = CommonDiffEditor editor_1, position = 0\<rparr>"
    by (simp add: services_diff_def)
  have ed: "\<exists>b\<in>set (editors (newState services_diff)). editor b = editor_1"
    by code_simp
  have no: "\<not> (\<exists>b\<in>set (editors (newState services_other)). isFocused (editor b))"
    by code_simp
  have wo: "getActiveEditor services_other = Some \<lparr>getControl = OtherControl, position = 0\<rparr>"
    by (simp add: services_other_def)
  show ?thesis
    using active_editor_resolution[of services_focus]
      active_editor_resolution[of services_diff "\<lparr>getControl = CommonDiffEditor editor_1, position = 0\<rparr>" editor_1]
      active_editor_resolution[of services_other]
      f nd wd ed no wo
    by simp
qed

text \<open>
  The flag \<open>isEmpty\<close> is the conjunction that the constructor computes, with \<open>===\<close>
  on the two active-editor fields, and \<open>_updateState\<close> fires exactly the deltas whose
  flag is false; on a delta whose flag is true it changes nothing and fires nothing.
\<close>

lemma isEmpty_iff:
  "isEmpty (new_DocumentAndEditorStateDelta rd ad re ae old new) =
     (rd = [] \<and> ad = [] \<and> re = [] \<and> ae = [] \<and> old = new)"
  by (simp add: new_DocumentAndEditorStateDelta_def)

lemma isEmpty_compute:
  "isEmpty (compute bef aft) =
     (removedDocuments (compute bef aft) = [] \<and> addedDocuments (compute bef aft) = [] \<and>
      removedEditors (compute bef aft) = [] \<and> addedEditors (compute bef aft) = [] \<and>
      oldActiveEditor (compute bef aft) = newActiveEditor (compute bef aft))"
  by (simp add: compute_def new_DocumentAndEditorStateDelta_def Let_def split: option.splits)

lemma updateState_fired:
  "snd (updateState svc t) = Some d \<Longrightarrow>
     \<not> isEmpty d \<and> d = compute (currentState t) (newState svc) \<and>
     currentState (fst (updateState svc t)) = Some (newState svc)"
  by (auto simp: updateState_def Let_def split: if_splits)

lemma updateState_silent:
  "isEmpty (compute (currentState t) (newState svc)) \<Longrightarrow> updateState svc t = (t, None)"
  by (simp add: updateState_def Let_def)

text \<open>
  The active id of a freshly built snapshot is \<open>null\<close> or a string, never
  \<open>undefined\<close>, while \<open>compute\<close> reports \<open>undefined\<close> as the old active id when no
  snapshot is stored. The two differ under \<open>===\<close>, so the first recomputation of a
  tracker fires whatever the collaborators hold.
\<close>

lemma matchCandidate_defined: "act \<noteq> Undefined \<Longrightarrow> matchCandidate c eds act \<noteq> Undefined"
  by (induction eds) auto

lemma collectEditors_defined: "act \<noteq> Undefined \<Longrightarrow> snd (collectEditors es eds act) \<noteq> Undefined"
  by (induction es arbitrary: eds act) (auto simp: Let_def split: option.splits)

lemma activeEditor_newState_defined: "activeEditor (newState svc) \<noteq> Undefined"
proof -
  have c: "snd (collectEditors (listCodeEditors svc) [] Null) \<noteq> Undefined"
    by (rule collectEditors_defined) simp
  show ?thesis
    unfolding activeEditor_newState
    using c matchCandidate_defined[OF c]
    by (auto simp: resolveActiveEditor_def split: option.splits)
qed

lemma first_updateState_always_fires:
  "currentState t = None \<Longrightarrow> snd (updateState svc t) = Some (compute None (newState svc))"
  using activeEditor_newState_defined[of svc]
  by (auto simp: updateState_def Let_def compute_def new_DocumentAndEditorStateDelta_def)

text \<open>
  C2. The first recomputation of a tracker, with no documents, no editors and no
  active workbench editor: \<open>_updateState\<close> stores the empty snapshot and fires a delta
  whose four sequences are empty and whose active-editor fields are \<open>undefined\<close> and
  \<open>null\<close>, both absent. Its flag \<open>isEmpty\<close> is false because \<open>undefined === null\<close> is
  false, so this delta, which changes nothing, reaches the subscribers. The same happens
  when the first event of a new tracker is the arrival of an editor that has no model,
  while the only document is too large: nothing passes the filter.
\<close>

theorem first_updateState_fires_noop:
  "updateState services_empty
     \<lparr>toDispose = ds, toDisposeOnEditorRemove = reg, currentState = None\<rparr> =
   (\<lparr>toDispose = ds, toDisposeOnEditorRemove = reg,
      currentState = Some \<lparr>documents = [], editors = [], activeEditor = Null\<rparr>\<rparr>,
    Some \<lparr>removedDocuments = [], addedDocuments = [], removedEditors = [], addedEditors = [],
          oldActiveEditor = Undefined, newActiveEditor = Null, isEmpty = False\<rparr>)
   \<and> snd (onDidAddEditor services_unbound editor_none
            (new_MainThreadDocumentAndEditorState \<lparr>listeners = [], nextHandle = 0\<rparr>)) =
      Some \<lparr>removedDocuments = [], addedDocuments = [], removedEditors = [], addedEditors = [],
            oldActiveEditor = Undefined, newActiveEditor = Null, isEmpty = False\<rparr>"
proof -
  have n: "newState services_empty = \<lparr>documents = [], editors = [], activeEditor = Null\<rparr>"
    by code_simp
  have a: "updateState services_empty
     \<lparr>toDispose = ds, toDisposeOnEditorRemove = reg, currentState = None\<rparr> =
   (\<lparr>toDispose = ds, toDisposeOnEditorRemove = reg,
      currentState = Some \<lparr>documents = [], editors = [], activeEditor = Null\<rparr>\<rparr>,
    Some \<lparr>removedDocuments = [], addedDocuments = [], removedEditors = [], addedEditors = [],
          oldActiveEditor = Undefined, newActiveEditor = Null, isEmpty = False\<rparr>)"
    by (simp add: updateState_def n compute_def new_DocumentAndEditorStateDelta_def Let_def)
  have b: "snd (onDidAddEditor services_unbound editor_none
            (new_MainThreadDocumentAndEditorState \<lparr>listeners = [], nextHandle = 0\<rparr>)) =
      Some \<lparr>removedDocuments = [], addedDocuments = [], removedEditors = [], addedEditors = [],
            oldActiveEditor = Undefined, newActiveEditor = Null, isEmpty = False\<rparr>"
    by code_simp
  show ?thesis using a b by simp
qed

text \<open>
  The tracker's \<open>dispose()\<close> takes the listeners of \<open>_toDispose\<close> off their emitters
  and nothing else: the registry \<open>_toDisposeOnEditorRemove\<close> is left as it is, and so
  are the listeners it holds.
\<close>

lemma fold_disposeOne:
  "listeners (fold disposeOne ds em) = filter (\<lambda>l. fst l \<notin> set ds) (listeners em)"
  by (induction ds arbitrary: em) (auto simp: disposeOne_def intro: filter_cong)

lemma nextHandle_fold_disposeOne: "nextHandle (fold disposeOne ds em) = nextHandle em"
  by (induction ds arbitrary: em) (auto simp: disposeOne_def)

lemma disposeTracker_effect:
  "listeners (fst (disposeTracker (em, t))) =
      filter (\<lambda>l. fst l \<notin> set (toDispose t)) (listeners em)
   \<and> toDispose (snd (disposeTracker (em, t))) = []
   \<and> toDisposeOnEditorRemove (snd (disposeTracker (em, t))) = toDisposeOnEditorRemove t"
  by (simp add: disposeTracker_def dispose_def fold_disposeOne)

lemma disposeTracker_keeps_editor_listeners:
  "toDisposeOnEditorRemove t e = Some h \<Longrightarrow> (h, src) \<in> set (listeners em) \<Longrightarrow>
   h \<notin> set (toDispose t) \<Longrightarrow>
   (h, src) \<in> set (listeners (fst (disposeTracker (em, t)))) \<and>
   toDisposeOnEditorRemove (snd (disposeTracker (em, t))) e = Some h"
  by (simp add: disposeTracker_effect)

text \<open>
  C3. A tracker is constructed, one editor is added, and the tracker is disposed.
  Before \<open>dispose()\<close> five listeners are registered: the four top-level ones and the
  listener on the editor's events. After \<open>dispose()\<close> the four top-level listeners are
  gone, while the editor's listener is still registered at the editor and still held in
  the registry \<open>_toDisposeOnEditorRemove\<close>.
\<close>

theorem dispose_leaves_editor_listener:
  "(let s0 = new_MainThreadDocumentAndEditorState \<lparr>listeners = [], nextHandle = 0\<rparr>;
        s1 = fst (onDidAddEditor services_diff editor_1 s0);
        s2 = disposeTracker s1
    in listeners (fst s1) =
         [(0, OnModelAdded), (1, OnModelRemoved), (2, OnCodeEditorAdd), (3, OnCodeEditorRemove),
          (4, EditorEvents ''E1'')]
       \<and> listeners (fst s2) = [(4, EditorEvents ''E1'')]
       \<and> toDispose (snd s2) = []
       \<and> toDisposeOnEditorRemove (snd s2) ''E1'' = Some 4)"
  by code_simp

section \<open>Properties of the dispatcher\<close>

lemma addedEditorsLoop_eq:
  "addedEditorsLoop xs reg acc tr =
     (fst (addedEditorsLoop xs reg [] []),
      acc @ map (\<lambda>x. new_MainThreadTextEditor (id' x) (document x) (editor x)) xs,
      tr @ map (\<lambda>x. NewMainThreadTextEditor (id' x)) xs)"
proof (induction xs arbitrary: reg acc tr)
  case Nil
  then show ?case by simp
next
  case (Cons x xs)
  show ?case
    apply (simp add: Let_def)
    apply (subst Cons.IH)
    apply (subst (2) Cons.IH)
    apply simp
    done
qed

lemma addedEditorsLoop_reg:
  "reg i = None \<Longrightarrow> i \<notin> id' ` set xs \<Longrightarrow> fst (addedEditorsLoop xs reg acc tr) i = None"
  by (induction xs arbitrary: reg acc tr) (auto simp: Let_def)

lemma removedEditorsLoop_shape:
  "\<exists>reg' r. removedEditorsLoop xs reg rem tr =
       (reg', rem @ r, tr @ map DisposeMainThreadTextEditor r)
     \<and> set r \<subseteq> id' ` set xs \<and> (\<forall>i\<in>set r. reg i \<noteq> None)
     \<and> (\<forall>i. reg i = None \<longrightarrow> reg' i = None)
     \<and> (\<forall>i\<in>set r. reg' i = None)"
proof (induction xs arbitrary: reg rem tr)
  case Nil
  then show ?case by simp
next
  case (Cons x xs)
  show ?case
  proof (cases "reg (id' x)")
    case None
    obtain reg' r where h: "removedEditorsLoop xs reg rem tr =
       (reg', rem @ r, tr @ map DisposeMainThreadTextEditor r)"
      "set r \<subseteq> id' ` set xs" "\<forall>i\<in>set r. reg i \<noteq> None"
      "\<forall>i. reg i = None \<longrightarrow> reg' i = None" "\<forall>i\<in>set r. reg' i = None"
      using Cons.IH[of reg rem tr] by blast
    show ?thesis
      apply (rule exI[of _ reg'], rule exI[of _ r])
      using h None by auto
  next
    case (Some m)
    let ?reg1 = "reg(id' x := None)"
    obtain reg' r where h: "removedEditorsLoop xs ?reg1 (rem @ [id' x])
          (tr @ [DisposeMainThreadTextEditor (id' x)]) =
       (reg', (rem @ [id' x]) @ r, (tr @ [DisposeMainThreadTextEditor (id' x)]) @ map DisposeMainThreadTextEditor r)"
      "set r \<subseteq> id' ` set xs" "\<forall>i\<in>set r. ?reg1 i \<noteq> None"
      "\<forall>i. ?reg1 i = None \<longrightarrow> reg' i = None" "\<forall>i\<in>set r. reg' i = None"
      using Cons.IH[of ?reg1 "rem @ [id' x]" "tr @ [DisposeMainThreadTextEditor (id' x)]"] by blast
    have a: "\<forall>i\<in>set (id' x # r). reg i \<noteq> None"
      using h(3) Some by (auto split: if_splits)
    have b: "\<forall>i. reg i = None \<longrightarrow> reg' i = None"
      using h(4) by (auto split: if_splits)
    have c: "\<forall>i\<in>set (id' x # r). reg' i = None"
      using h(4) h(5) by auto
    show ?thesis
      apply (rule exI[of _ reg'], rule exI[of _ "id' x # r"])
      using h(1) h(2) a b c Some by auto
  qed
qed


lemma onDelta_unfold:
  "\<exists>reg2 r. onDelta svc st d =
     (st\<lparr>editors' := reg2\<rparr>,
      map (\<lambda>x. NewMainThreadTextEditor (id' x)) (addedEditors d)
      @ map DisposeMainThreadTextEditor r
      @ [AcceptDocumentsAndEditorsDelta
           \<lparr>newActiveEditor' = newActiveEditor d,
            removedDocuments' = map uri (removedDocuments d),
            removedEditors' = r,
            addedDocuments' = map (toModelAddData svc) (addedDocuments d),
            addedEditors' = map (toTextEditorAddData svc)
               (map (\<lambda>x. new_MainThreadTextEditor (id' x) (document x) (editor x)) (addedEditors d))\<rparr>,
         FireTextEditorRemove r,
         FireTextEditorAdd
           (map (\<lambda>x. new_MainThreadTextEditor (id' x) (document x) (editor x)) (addedEditors d)),
         FireDocumentRemove (map uri (removedDocuments d)),
         FireDocumentAdd (addedDocuments d)])
   \<and> set r \<subseteq> id' ` set (removedEditors d)
   \<and> (\<forall>i\<in>set r. fst (addedEditorsLoop (addedEditors d) (editors' st) [] []) i \<noteq> None)
   \<and> (\<forall>i. fst (addedEditorsLoop (addedEditors d) (editors' st) [] []) i = None \<longrightarrow> reg2 i = None)
   \<and> (\<forall>i\<in>set r. reg2 i = None)"
proof -
  define reg1 where "reg1 = fst (addedEditorsLoop (addedEditors d) (editors' st) [] [])"
  define tr1 where "tr1 = map (\<lambda>x. NewMainThreadTextEditor (id' x)) (addedEditors d)"
  define eds where "eds = map (\<lambda>x. new_MainThreadTextEditor (id' x) (document x) (editor x)) (addedEditors d)"
  have a: "addedEditorsLoop (addedEditors d) (editors' st) [] [] = (reg1, eds, tr1)"
    using addedEditorsLoop_eq[of "addedEditors d" "editors' st" "[]" "[]"]
    by (simp add: reg1_def tr1_def eds_def)
  obtain reg2 r where h: "removedEditorsLoop (removedEditors d) reg1 [] tr1 =
       (reg2, [] @ r, tr1 @ map DisposeMainThreadTextEditor r)"
      "set r \<subseteq> id' ` set (removedEditors d)" "\<forall>i\<in>set r. reg1 i \<noteq> None"
      "\<forall>i. reg1 i = None \<longrightarrow> reg2 i = None" "\<forall>i\<in>set r. reg2 i = None"
    using removedEditorsLoop_shape[of "removedEditors d" reg1 "[]" tr1] by blast
  have "onDelta svc st d =
     (st\<lparr>editors' := reg2\<rparr>,
      tr1 @ map DisposeMainThreadTextEditor r
      @ [AcceptDocumentsAndEditorsDelta
           \<lparr>newActiveEditor' = newActiveEditor d,
            removedDocuments' = map uri (removedDocuments d),
            removedEditors' = r,
            addedDocuments' = map (toModelAddData svc) (addedDocuments d),
            addedEditors' = map (toTextEditorAddData svc) eds\<rparr>,
         FireTextEditorRemove r,
         FireTextEditorAdd eds,
         FireDocumentRemove (map uri (removedDocuments d)),
         FireDocumentAdd (addedDocuments d)])"
    using h(1) by (simp add: onDelta_def Let_def a)
  then show ?thesis
    using h(2-5) unfolding reg1_def tr1_def eds_def by blast
qed

text \<open>
  What the two loops of \<open>_onDelta\<close> compute. The first registers a handle for every
  added binding, a later one replacing an earlier one under the same id. The second
  disposes and deletes, in the order of the removed bindings, every id that has a handle
  in the registry when it is looked up, each id once; afterwards no id of a removed
  binding has a handle.
\<close>

lemma addedEditorsLoop_registry:
  "fst (addedEditorsLoop xs reg acc tr) =
     reg ++ map_of (rev (map (\<lambda>x. (id' x, handleOf x)) xs))"
proof (induction xs arbitrary: reg acc tr)
  case Nil
  then show ?case by simp
next
  case (Cons x xs)
  have step: "fst (addedEditorsLoop (x # xs) reg acc tr) =
      fst (addedEditorsLoop xs (reg(id' x \<mapsto> handleOf x)) (acc @ [handleOf x])
             (tr @ [NewMainThreadTextEditor (id' x)]))"
    by (simp add: Let_def handleOf_def)
  have m: "reg(id' x \<mapsto> handleOf x) ++ map_of (rev (map (\<lambda>x. (id' x, handleOf x)) xs)) =
        reg ++ map_of (rev (map (\<lambda>x. (id' x, handleOf x)) (x # xs)))"
    by (rule ext) (simp add: map_add_def split: option.splits)
  show ?case
    unfolding step Cons.IH m ..
qed

lemma removedEditorsLoop_exact:
  "removedEditorsLoop xs reg rem tr =
     ((\<lambda>i. if i \<in> id' ` set xs then None else reg i),
      rem @ filter (\<lambda>i. reg i \<noteq> None) (firstOccurrences (map id' xs)),
      tr @ map DisposeMainThreadTextEditor
             (filter (\<lambda>i. reg i \<noteq> None) (firstOccurrences (map id' xs))))"
proof (induction xs arbitrary: reg rem tr)
  case Nil
  then show ?case by simp
next
  case (Cons x xs)
  show ?case
  proof (cases "reg (id' x)")
    case None
    have f: "filter (\<lambda>i. reg i \<noteq> None) (filter (\<lambda>j. j \<noteq> id' x) (firstOccurrences (map id' xs)))
           = filter (\<lambda>i. reg i \<noteq> None) (firstOccurrences (map id' xs))"
      using None by (auto intro: filter_cong)
    have g: "(\<lambda>i. if i \<in> id' ` set xs then None else reg i) =
             (\<lambda>i. if i \<in> id' ` set (x # xs) then None else reg i)"
      using None by auto
    have step: "removedEditorsLoop (x # xs) reg rem tr = removedEditorsLoop xs reg rem tr"
      using None by simp
    have r: "filter (\<lambda>i. reg i \<noteq> None) (firstOccurrences (map id' (x # xs))) =
        filter (\<lambda>i. reg i \<noteq> None)
          (filter (\<lambda>j. j \<noteq> id' x) (firstOccurrences (map id' xs)))"
      using None by simp
    show ?thesis
      unfolding step Cons.IH r f g ..
  next
    case (Some m)
    let ?reg = "reg(id' x := None)"
    have f: "filter (\<lambda>i. ?reg i \<noteq> None) (firstOccurrences (map id' xs))
           = filter (\<lambda>i. reg i \<noteq> None) (filter (\<lambda>j. j \<noteq> id' x) (firstOccurrences (map id' xs)))"
      by (auto intro: filter_cong)
    have g: "(\<lambda>i. if i \<in> id' ` set xs then None else ?reg i) =
             (\<lambda>i. if i \<in> id' ` set (x # xs) then None else reg i)"
      by auto
    have step: "removedEditorsLoop (x # xs) reg rem tr =
        removedEditorsLoop xs ?reg (rem @ [id' x]) (tr @ [DisposeMainThreadTextEditor (id' x)])"
      using Some by simp
    have r: "filter (\<lambda>i. reg i \<noteq> None) (firstOccurrences (map id' (x # xs))) =
        id' x # filter (\<lambda>i. reg i \<noteq> None)
                  (filter (\<lambda>j. j \<noteq> id' x) (firstOccurrences (map id' xs)))"
      using Some by simp
    show ?thesis
      unfolding step Cons.IH f g r by simp
  qed
qed

lemma addedEditorsLoop_exact:
  "addedEditorsLoop xs reg [] [] =
     (reg ++ map_of (rev (map (\<lambda>x. (id' x, handleOf x)) xs)),
      map handleOf xs,
      map (\<lambda>x. NewMainThreadTextEditor (id' x)) xs)"
proof -
  have h: "(\<lambda>x. new_MainThreadTextEditor (id' x) (document x) (editor x)) = handleOf"
    by (rule ext) (simp add: handleOf_def)
  have "addedEditorsLoop xs reg [] [] =
     (fst (addedEditorsLoop xs reg [] []), map handleOf xs,
      map (\<lambda>x. NewMainThreadTextEditor (id' x)) xs)"
    using addedEditorsLoop_eq[of xs reg "[]" "[]"] unfolding h by simp
  then show ?thesis by (simp add: addedEditorsLoop_registry)
qed

text \<open>
  C4, as the code has it. For every delta, \<open>_onDelta\<close> first constructs and registers
  the handles of the added bindings; then, for every removed binding whose id has a
  handle in the registry at that moment (registered before the delta or added by it),
  it disposes the handle and deletes it from the registry, in the order of the removed
  bindings and each id once; then it sends the wire payload, whose removed editors are
  exactly the ids of the handles just disposed and whose added editors are the data of
  the handles just constructed; and then it fires the local events: editor-removed,
  editor-added, document-removed, document-added. So additions are applied before
  removals are projected outward, and removals are announced after the removed handles
  are disposed.
\<close>

theorem onDelta_order:
  "onDelta svc st d =
     (let registered = editors' st ++ map_of (rev (map (\<lambda>x. (id' x, handleOf x)) (addedEditors d)));
          disposed = filter (\<lambda>i. registered i \<noteq> None)
                       (firstOccurrences (map id' (removedEditors d)))
      in (st\<lparr>editors' := (\<lambda>i. if i \<in> id' ` set (removedEditors d) then None else registered i)\<rparr>,
          map (\<lambda>x. NewMainThreadTextEditor (id' x)) (addedEditors d)
          @ map DisposeMainThreadTextEditor disposed
          @ [AcceptDocumentsAndEditorsDelta
               \<lparr>newActiveEditor' = newActiveEditor d,
                removedDocuments' = map uri (removedDocuments d),
                removedEditors' = disposed,
                addedDocuments' = map (toModelAddData svc) (addedDocuments d),
                addedEditors' = map (toTextEditorAddData svc) (map handleOf (addedEditors d))\<rparr>,
             FireTextEditorRemove disposed,
             FireTextEditorAdd (map handleOf (addedEditors d)),
             FireDocumentRemove (map uri (removedDocuments d)),
             FireDocumentAdd (addedDocuments d)]))"
  by (simp add: onDelta_def Let_def addedEditorsLoop_exact removedEditorsLoop_exact)

theorem onDelta_order_witness:
  "snd (onDelta services_diff dispatcher_1 delta_swap) =
     [NewMainThreadTextEditor ''E2,a.txt'',
      DisposeMainThreadTextEditor ''E1,a.txt'',
      AcceptDocumentsAndEditorsDelta
        \<lparr>newActiveEditor' = Str ''E2,a.txt'', removedDocuments' = [''b.txt''],
         removedEditors' = [''E1,a.txt''], addedDocuments' = [],
         addedEditors' = [\<lparr>data_id = ''E2,a.txt'', data_document = ''a.txt'',
                           editorPosition = None\<rparr>]\<rparr>,
      FireTextEditorRemove [''E1,a.txt''],
      FireTextEditorAdd [new_MainThreadTextEditor ''E2,a.txt'' doc_a editor_2],
      FireDocumentRemove [''b.txt''],
      FireDocumentAdd []]
   \<and> editors' dispatcher_1 ''E1,a.txt'' \<noteq> None
   \<and> editors' (fst (onDelta services_diff dispatcher_1 delta_swap)) ''E1,a.txt'' = None
   \<and> editors' (fst (onDelta services_diff dispatcher_1 delta_swap)) ''E2,a.txt'' =
       Some (new_MainThreadTextEditor ''E2,a.txt'' doc_a editor_2)"
  using onDelta_order[of services_diff dispatcher_1 delta_swap]
  by (simp add: Let_def delta_swap_def new_DocumentAndEditorStateDelta_def binding_1_def
        binding_2_def new_EditorAndModel_def handleOf_def new_MainThreadTextEditor_def
        dispatcher_1_def services_diff_def editor_1_def editor_2_def doc_a_def doc_b_def
        toTextEditorAddData_def toModelAddData_def map_add_def)

text \<open>
  C4, as stated, fails: with one registered handle whose binding is removed, the handle
  is disposed before any payload has reported its id.
\<close>

theorem onDelta_disposes_before_announcing:
  "\<not> announcedBeforeDisposed [] (snd (onDelta services_diff dispatcher_1 delta_swap))"
  by code_simp


lemma disposedEditors_append: "disposedEditors (xs @ ys) = disposedEditors xs @ disposedEditors ys"
  by (induction xs rule: disposedEditors.induct) auto

lemma disposedEditors_new: "disposedEditors (map (\<lambda>x. NewMainThreadTextEditor (f x)) xs) = []"
  by (induction xs) auto

lemma disposedEditors_dispose: "disposedEditors (map DisposeMainThreadTextEditor r) = r"
  by (induction r) auto

lemma reported_append:
  "reportedRemovedEditors (xs @ ys) = reportedRemovedEditors xs @ reportedRemovedEditors ys"
  by (induction xs rule: reportedRemovedEditors.induct) auto

lemma reported_new: "reportedRemovedEditors (map (\<lambda>x. NewMainThreadTextEditor (f x)) xs) = []"
  by (induction xs) auto

lemma reported_dispose: "reportedRemovedEditors (map DisposeMainThreadTextEditor r) = []"
  by (induction r) auto

text \<open>
  C8. A removed binding whose id has no handle in the registry when the loop over the
  removed editors reaches it (none registered before the delta, none added by the
  delta) is skipped: no handle with that id is disposed, the registry still has no
  entry for the id, and the id is neither among the removed editors of the wire payload
  nor in the local editor-removed event. \<open>_onDelta\<close> has no statement that throws.
\<close>

theorem untracked_removal_is_noop:
  assumes "editors' st i = None" and "i \<notin> id' ` set (addedEditors d)"
  shows "i \<notin> set (disposedEditors (snd (onDelta svc st d)))
       \<and> editors' (fst (onDelta svc st d)) i = None
       \<and> i \<notin> set (reportedRemovedEditors (snd (onDelta svc st d)))"
proof -
  obtain reg2 r where h: "onDelta svc st d =
     (st\<lparr>editors' := reg2\<rparr>,
      map (\<lambda>x. NewMainThreadTextEditor (id' x)) (addedEditors d)
      @ map DisposeMainThreadTextEditor r
      @ [AcceptDocumentsAndEditorsDelta
           \<lparr>newActiveEditor' = newActiveEditor d,
            removedDocuments' = map uri (removedDocuments d),
            removedEditors' = r,
            addedDocuments' = map (toModelAddData svc) (addedDocuments d),
            addedEditors' = map (toTextEditorAddData svc)
               (map (\<lambda>x. new_MainThreadTextEditor (id' x) (document x) (editor x)) (addedEditors d))\<rparr>,
         FireTextEditorRemove r,
         FireTextEditorAdd
           (map (\<lambda>x. new_MainThreadTextEditor (id' x) (document x) (editor x)) (addedEditors d)),
         FireDocumentRemove (map uri (removedDocuments d)),
         FireDocumentAdd (addedDocuments d)])"
    "\<forall>i\<in>set r. fst (addedEditorsLoop (addedEditors d) (editors' st) [] []) i \<noteq> None"
    "\<forall>i. fst (addedEditorsLoop (addedEditors d) (editors' st) [] []) i = None \<longrightarrow> reg2 i = None"
    using onDelta_unfold[of svc st d] by blast
  have n: "fst (addedEditorsLoop (addedEditors d) (editors' st) [] []) i = None"
    using assms addedEditorsLoop_reg[of "editors' st" i "addedEditors d" "[]" "[]"] by simp
  have r: "i \<notin> set r" using h(2) n by auto
  have g: "reg2 i = None" using h(3) n by simp
  show ?thesis
    using r g
    by (simp add: h(1) disposedEditors_append disposedEditors_new disposedEditors_dispose
          reported_append reported_new reported_dispose)
qed

theorem untracked_removal_is_noop_witness:
  "editors' dispatcher_empty ''E1,a.txt'' = None
   \<and> ''E1,a.txt'' \<in> id' ` set (removedEditors delta_swap)
   \<and> ''E1,a.txt'' \<notin> id' ` set (addedEditors delta_swap)
   \<and> ''E1,a.txt'' \<notin> set (disposedEditors (snd (onDelta services_diff dispatcher_empty delta_swap)))
   \<and> editors' (fst (onDelta services_diff dispatcher_empty delta_swap)) ''E1,a.txt'' = None
   \<and> ''E1,a.txt'' \<notin> set (reportedRemovedEditors (snd (onDelta services_diff dispatcher_empty delta_swap)))"
proof -
  have a: "editors' dispatcher_empty ''E1,a.txt'' = None"
    by (simp add: dispatcher_empty_def)
  have b: "''E1,a.txt'' \<notin> id' ` set (addedEditors delta_swap)"
    by (simp add: delta_swap_def new_DocumentAndEditorStateDelta_def binding_2_def
          new_EditorAndModel_def editor_2_def doc_a_def)
  have c: "''E1,a.txt'' \<in> id' ` set (removedEditors delta_swap)"
    by (simp add: delta_swap_def new_DocumentAndEditorStateDelta_def binding_1_def
          new_EditorAndModel_def editor_1_def doc_a_def)
  show ?thesis
    using untracked_removal_is_noop[OF a b, of services_diff] a b c by simp
qed

section \<open>Properties of the remote side\<close>

text \<open>
  C9. \<open>$acceptModelAdd\<close> of a document whose URI is already tracked throws
  ("already exists") and \<open>$acceptModelRemoved\<close> of a URI that is not tracked throws
  ("does not exist"); in both cases the map of tracked documents is what it was and no
  event has fired. Otherwise the add stores the document and the remove deletes it.
\<close>

theorem document_add_remove_rejected:
  "(documentData st (url initData) \<noteq> None \<longrightarrow>
      acceptModelAdd initData st =
        Throws (Error (''Document `'' @ url initData @ ''` already exists.'')) (st, []))
   \<and> (documentData st strURL = None \<longrightarrow>
      acceptModelRemoved strURL st =
        Throws (Error (''Document `'' @ strURL @ ''` does not exist.'')) (st, []))
   \<and> (documentData st (url initData) = None \<longrightarrow>
      (\<exists>st'. acceptModelAdd initData st = Returns (st', [FireDidAddDocument (url initData)]) \<and>
          documentData st' (url initData) \<noteq> None))
   \<and> (documentData st strURL \<noteq> None \<longrightarrow>
      (\<exists>st'. acceptModelRemoved strURL st =
          Returns (st', [FireDidRemoveDocument (documentUri (the (documentData st strURL))),
                         DisposeDocumentData (documentUri (the (documentData st strURL)))]) \<and>
          documentData st' strURL = None))"
  by (auto simp: acceptModelAdd_def acceptModelRemoved_def Let_def split: option.splits)

theorem document_add_remove_rejected_witness:
  "documentData documents_1 (url \<lparr>url = ''a.txt'', data_versionId = 2, data_isDirty = True\<rparr>) \<noteq> None
   \<and> acceptModelAdd \<lparr>url = ''a.txt'', data_versionId = 2, data_isDirty = True\<rparr> documents_1 =
        Throws (Error ''Document `a.txt` already exists.'') (documents_1, [])
   \<and> documentData documents_1 ''b.txt'' = None
   \<and> acceptModelRemoved ''b.txt'' documents_1 =
        Throws (Error ''Document `b.txt` does not exist.'') (documents_1, [])
   \<and> documentData documents_1 (url \<lparr>url = ''b.txt'', data_versionId = 1, data_isDirty = False\<rparr>) = None
   \<and> (\<exists>st'. acceptModelAdd \<lparr>url = ''b.txt'', data_versionId = 1, data_isDirty = False\<rparr> documents_1 =
          Returns (st', [FireDidAddDocument ''b.txt'']) \<and> documentData st' ''b.txt'' \<noteq> None)
   \<and> documentData documents_1 ''a.txt'' \<noteq> None
   \<and> (\<exists>st'. acceptModelRemoved ''a.txt'' documents_1 =
          Returns (st', [FireDidRemoveDocument ''a.txt'', DisposeDocumentData ''a.txt'']) \<and>
          documentData st' ''a.txt'' = None)"
proof -
  have a: "documentData documents_1 ''a.txt'' \<noteq> None" by (simp add: documents_1_def)
  have b: "documentData documents_1 ''b.txt'' = None" by (simp add: documents_1_def)
  have v: "documentUri (the (documentData documents_1 ''a.txt'')) = ''a.txt''"
    by (simp add: documents_1_def)
  show ?thesis
    using document_add_remove_rejected[of documents_1
            "\<lparr>url = ''a.txt'', data_versionId = 2, data_isDirty = True\<rparr>" "''b.txt''"]
          document_add_remove_rejected[of documents_1
            "\<lparr>url = ''b.txt'', data_versionId = 1, data_isDirty = False\<rparr>" "''a.txt''"]
          a b v
    by simp
qed

lemma accept_visible:
  "visibleEditorIds (fst (acceptActiveEditorAndVisibleEditors k vis st)) = vis"
  by (auto simp: acceptActiveEditorAndVisibleEditors_def Let_def arrayEquals_def)

lemma accept_active:
  "activeEditorId (fst (acceptActiveEditorAndVisibleEditors k vis st)) = k"
  by (auto simp: acceptActiveEditorAndVisibleEditors_def Let_def)

lemma accept_editors:
  "editorsMap (fst (acceptActiveEditorAndVisibleEditors k vis st)) = editorsMap st"
  by (auto simp: acceptActiveEditorAndVisibleEditors_def Let_def)

lemma accept_trace:
  "snd (acceptActiveEditorAndVisibleEditors k vis st) =
     (if visibleEditorIds st \<noteq> vis
      then [FireDidChangeVisibleTextEditors (map (editorsMap st) vis)] else []) @
     (if activeEditorId st \<noteq> k
      then [FireDidChangeActiveTextEditor (getEditor st k)] else [])"
  by (cases k) (auto simp: acceptActiveEditorAndVisibleEditors_def Let_def arrayEquals_def
        getVisibleTextEditors_def getActiveTextEditor_def)

lemma filter_neq_same: "(filter (\<lambda>v. v \<noteq> i) xs = xs) = (i \<notin> set xs)"
  by (auto simp: filter_id_conv)

text \<open>
  C10. \<open>$acceptTextEditorRemove\<close> of a tracked editor id returns normally. Afterwards
  the id is not among the visible editor ids, the active editor id is not the removed
  id (it is \<open>undefined\<close> if the removed editor was active and unchanged otherwise), and
  the editor is deleted from the map. The visible-editors event (fired when the id was
  visible) and the active-editor event (fired when the editor was active) come before
  the disposal of the editor, which is the last effect.
\<close>

theorem editor_remove_order:
  assumes "editorsMap st i = Some ed"
  shows "\<exists>st'. acceptTextEditorRemove i st =
          Returns (st',
            (if i \<in> set (visibleEditorIds st)
             then [FireDidChangeVisibleTextEditors
                     (map (editorsMap st) (filter (\<lambda>v. v \<noteq> i) (visibleEditorIds st)))]
             else []) @
            (if activeEditorId st = Str i then [FireDidChangeActiveTextEditor None] else []) @
            [DisposeExtHostTextEditor i])
       \<and> i \<notin> set (visibleEditorIds st')
       \<and> visibleEditorIds st' = filter (\<lambda>v. v \<noteq> i) (visibleEditorIds st)
       \<and> activeEditorId st' \<noteq> Str i
       \<and> activeEditorId st' = (if activeEditorId st = Str i then Undefined else activeEditorId st)
       \<and> editorsMap st' = (editorsMap st)(i := None)"
proof -
  let ?vis = "filter (\<lambda>v. v \<noteq> i) (visibleEditorIds st)"
  let ?k = "if activeEditorId st = Str i then Undefined else activeEditorId st"
  let ?r = "acceptActiveEditorAndVisibleEditors ?k ?vis st"
  obtain st1 tr where r: "?r = (st1, tr)" by (cases ?r)
  have m: "editorsMap st1 i = Some ed"
    using assms accept_editors[of ?k ?vis st] r by simp
  have "acceptTextEditorRemove i st =
      Returns (st1\<lparr>editorsMap := (editorsMap st1)(i := None)\<rparr>, tr @ [DisposeExtHostTextEditor i])"
  proof (cases "activeEditorId st = Str i")
    case True
    then show ?thesis using r m by (simp add: acceptTextEditorRemove_def Let_def)
  next
    case False
    then show ?thesis using r m by (simp add: acceptTextEditorRemove_def Let_def)
  qed
  then have e: "acceptTextEditorRemove i st =
      Returns ((fst ?r)\<lparr>editorsMap := (editorsMap st)(i := None)\<rparr>, snd ?r @ [DisposeExtHostTextEditor i])"
    using r accept_editors[of ?k ?vis st] by simp
  have t: "snd ?r =
      (if i \<in> set (visibleEditorIds st)
       then [FireDidChangeVisibleTextEditors (map (editorsMap st) ?vis)] else []) @
      (if activeEditorId st = Str i then [FireDidChangeActiveTextEditor None] else [])"
    using filter_neq_same[of i "visibleEditorIds st"]
    by (auto simp: accept_trace)
  show ?thesis
    apply (rule exI[of _ "(fst ?r)\<lparr>editorsMap := (editorsMap st)(i := None)\<rparr>"])
    using e t accept_visible[of ?k ?vis st] accept_active[of ?k ?vis st]
    by auto
qed

theorem editor_remove_order_witness:
  "editorsMap mirror_1 ''E1,a.txt'' =
      Some \<lparr>extHostEditorId = ''E1,a.txt'', extHostEditorDocument = ''a.txt''\<rparr>
   \<and> (\<exists>st'. acceptTextEditorRemove ''E1,a.txt'' mirror_1 =
          Returns (st',
            [FireDidChangeVisibleTextEditors
               [Some \<lparr>extHostEditorId = ''E2,a.txt'', extHostEditorDocument = ''a.txt''\<rparr>],
             FireDidChangeActiveTextEditor None,
             DisposeExtHostTextEditor ''E1,a.txt''])
        \<and> ''E1,a.txt'' \<notin> set (visibleEditorIds st')
        \<and> visibleEditorIds st' = [''E2,a.txt'']
        \<and> activeEditorId st' = Undefined
        \<and> editorsMap st' ''E1,a.txt'' = None
        \<and> editorsMap st' ''E2,a.txt'' \<noteq> None)"
proof -
  have a: "editorsMap mirror_1 ''E1,a.txt'' =
      Some \<lparr>extHostEditorId = ''E1,a.txt'', extHostEditorDocument = ''a.txt''\<rparr>"
    by (simp add: mirror_1_def)
  have v: "visibleEditorIds mirror_1 = [''E1,a.txt'', ''E2,a.txt'']"
    and k: "activeEditorId mirror_1 = Str ''E1,a.txt''"
    and b: "editorsMap mirror_1 ''E2,a.txt'' =
      Some \<lparr>extHostEditorId = ''E2,a.txt'', extHostEditorDocument = ''a.txt''\<rparr>"
    by (simp_all add: mirror_1_def)
  show ?thesis
    using editor_remove_order[OF a] a v k b by auto
qed

end
